theory Spec2Isabelle
  imports Complex_Main "HOL-Library.AList"
begin

section \<open>Values exchanged with the remote API\<close>

text \<open>
  A value produced by \<^verbatim>\<open>res.json()\<close>. The program reads one property of an
  arbitrary parsed value, its truthiness (\<^verbatim>\<open>if (data)\<close> in \<^verbatim>\<open>fetchTerm\<close>).
\<close>

datatype jsval =
    JNull
  | JBool bool
  | JNum rat
  | JStr string
  | JArr "jsval list"
  | JObj "(string \<times> jsval) list"

fun truthy :: "jsval \<Rightarrow> bool" where
  "truthy JNull = False"
| "truthy (JBool b) = b"
| "truthy (JNum n) = (n \<noteq> 0)"
| "truthy (JStr s) = (s \<noteq> [])"
| "truthy (JArr xs) = True"
| "truthy (JObj kvs) = True"

text \<open>
  The records the list endpoints return (\<^verbatim>\<open>child.child_go_id\<close>, \<^verbatim>\<open>strain.mmrrc_id\<close>)
  and the term object the tree holds (\<^verbatim>\<open>term.go_id\<close>, \<^verbatim>\<open>term.name\<close>). The body of a
  children or strains response that parses is taken to be an array of such records, as
  the two endpoints answer; the body of a term response is any JSON value.
\<close>

record edge =
  child_go_id :: string

record strain =
  mmrrc_id :: string

record go_term =
  go_id :: string
  name :: string

text \<open>What a rejected promise carries: \<^verbatim>\<open>fetch\<close> rejects with a TypeError when the
  transport fails, \<^verbatim>\<open>res.json()\<close> with a SyntaxError when the body does not parse.\<close>

datatype error = TypeError | SyntaxError

text \<open>A response object: \<^verbatim>\<open>res.ok\<close> and the outcome of \<^verbatim>\<open>res.json()\<close>.
  The outcome of \<^verbatim>\<open>fetch(url)\<close> itself is \<open>error + 'a response\<close>.\<close>

record 'a response =
  ok :: bool
  json :: "error + 'a"

section \<open>Shared state of the richer variant\<close>

record 'a entry =
  data :: 'a
  timestamp :: int

text \<open>The value a promise of \<^verbatim>\<open>pendingRequests\<close> is fulfilled with. The promise
  of \<^verbatim>\<open>prefetchStrains\<close> is fulfilled with \<^verbatim>\<open>undefined\<close>: its callbacks return nothing.\<close>

datatype pvalue =
    PTerm jsval
  | PChildren "edge list"
  | PStrains "strain list"
  | PUndefined

datatype settled = Fulfilled pvalue | Rejected error

text \<open>The callback chain attached to a \<^verbatim>\<open>fetch\<close> call, by the function that made it.\<close>

datatype handler =
    HTerm string
  | HChildren string
  | HPrefetch string
  | HShow string

text \<open>The two \<^verbatim>\<open>await\<close> sites of \<^verbatim>\<open>showStrains\<close>: on its own request, and on a
  request found in \<^verbatim>\<open>pendingRequests\<close>.\<close>

datatype waiter = Own | Joined

record anchor =
  href :: string
  textContent :: string
  target :: string
  rel :: string
  classList :: "string list"

text \<open>
  The children of the \<^verbatim>\<open>strain-list\<close> element: a message item written through
  \<^verbatim>\<open>innerHTML\<close> (class and text), a strain item holding its link, or the
  "load more" item. The latter carries the number shown in its text
  (\<^verbatim>\<open>+ n more strains (click to load)\<close>) and the array its click handler closes over.
\<close>

datatype li =
    Message string string
  | StrainLi anchor
  | LoadMoreLi nat "strain list"

record state =
  termCache :: "(string \<times> jsval entry) list"
  childrenCache :: "(string \<times> edge list entry) list"
  strainsCache :: "(string \<times> strain list entry) list"
  pendingRequests :: "string \<rightharpoonup> nat"
  prefetchQueue :: "string set"
  sent :: "string list"
  inflight :: "nat \<rightharpoonup> handler"
  promises :: "nat \<rightharpoonup> settled"
  waiters :: "(nat \<times> waiter) list"
  console :: "(string \<times> error) list"
  selected_go_label :: string
  strain_list :: "li list"

text \<open>
  The three caches are JavaScript Maps, kept as association lists in insertion order
  (\<open>AList.update\<close> is \<^verbatim>\<open>Map.set\<close>, \<open>AList.delete\<close> is \<^verbatim>\<open>Map.delete\<close>, \<open>map_of\<close> is
  \<^verbatim>\<open>Map.get\<close>). \<open>sent\<close> lists the URLs passed to \<^verbatim>\<open>fetch\<close>, in call order; the
  position of a call numbers the promise its callback chain produces. \<open>inflight\<close>
  holds the chains whose request has not settled, \<open>promises\<close> the settled promises,
  \<open>waiters\<close> the suspended \<^verbatim>\<open>showStrains\<close> activations, \<open>console\<close> the
  \<^verbatim>\<open>console.error\<close> calls.
\<close>

definition init_state :: state where
  "init_state = \<lparr> termCache = [], childrenCache = [], strainsCache = [],
     pendingRequests = Map.empty, prefetchQueue = {}, sent = [],
     inflight = Map.empty, promises = Map.empty, waiters = [], console = [],
     selected_go_label = [], strain_list = [] \<rparr>"

definition apiUrl :: string where
  "apiUrl = ''http://localhost:3000/api''"

definition CACHE_EXPIRY :: int where
  "CACHE_EXPIRY = 30 * 60 * 1000"

text \<open>The delay given to \<^verbatim>\<open>setInterval\<close> for the sweep.\<close>

definition SWEEP_INTERVAL :: int where
  "SWEEP_INTERVAL = 5 * 60 * 1000"

subsection \<open>encodeURIComponent\<close>

text \<open>Over the UTF-8 bytes of the identifier: the unreserved characters stay, every
  other byte becomes \<^verbatim>\<open>%XX\<close> in upper-case hexadecimal. Identifiers are well-formed
  strings (the built-in throws on a lone surrogate, which a byte string cannot hold).\<close>

definition unreserved :: "char \<Rightarrow> bool" where
  "unreserved c = (c \<in> set (''ABCDEFGHIJKLMNOPQRSTUVWXYZabcdefghijklmnopqrstuvwxyz''
      @ ''0123456789-_.!~*()'' @ [CHR 0x27]))"

definition hexdigit :: "nat \<Rightarrow> char" where
  "hexdigit n = ''0123456789ABCDEF'' ! n"

definition percent :: "char \<Rightarrow> string" where
  "percent c = [CHR ''%'', hexdigit (of_char c div 16), hexdigit (of_char c mod 16)]"

definition encodeURIComponent :: "string \<Rightarrow> string" where
  "encodeURIComponent s = concat (map (\<lambda>c. if unreserved c then [c] else percent c) s)"

definition term_url :: "string \<Rightarrow> string" where
  "term_url gid = apiUrl @ ''/go/'' @ encodeURIComponent gid"

definition children_url :: "string \<Rightarrow> string" where
  "children_url gid = apiUrl @ ''/go/children/'' @ encodeURIComponent gid"

definition strains_url :: "string \<Rightarrow> string" where
  "strains_url gid = apiUrl @ ''/go/'' @ encodeURIComponent gid @ ''/mmrrc-strains''"

subsection \<open>Cache reads and the fetch primitive\<close>

text \<open>\<^verbatim>\<open>cached && Date.now() - cached.timestamp < CACHE_EXPIRY\<close>, with \<open>now\<close> the value
  \<^verbatim>\<open>Date.now()\<close> returns.\<close>

definition fresh :: "int \<Rightarrow> 'a entry option \<Rightarrow> bool" where
  "fresh now cached =
     (case cached of None \<Rightarrow> False | Some c \<Rightarrow> now - timestamp c < CACHE_EXPIRY)"

text \<open>\<^verbatim>\<open>fetch(url)\<close> followed by the callback chain \<open>h\<close>: the call is recorded and the
  chain waits for the response. The result is the number of the chain's promise.\<close>

definition fetch :: "string \<Rightarrow> handler \<Rightarrow> state \<Rightarrow> nat \<times> state" where
  "fetch url h s =
     (let p = length (sent s)
      in (p, s\<lparr> sent := sent s @ [url], inflight := (inflight s)(p \<mapsto> h) \<rparr>))"

text \<open>What an \<^verbatim>\<open>async\<close> fetcher hands its caller: a value at once (cache hit), or the
  promise of a request.\<close>

datatype 'a outcome = Ready 'a | Awaiting nat

subsection \<open>fetchTerm and fetchChildren: the synchronous part\<close>

definition fetchTerm :: "int \<Rightarrow> string \<Rightarrow> state \<Rightarrow> jsval outcome \<times> state" where
  "fetchTerm now gid s =
     (let cached = map_of (termCache s) gid in
      if fresh now cached then (Ready (data (the cached)), s)
      else
        let requestKey = ''term-'' @ gid in
        case pendingRequests s requestKey of
          Some p \<Rightarrow> (Awaiting p, s)
        | None \<Rightarrow>
            let (p, s1) = fetch (term_url gid) (HTerm gid) s
            in (Awaiting p, s1\<lparr> pendingRequests := (pendingRequests s1)(requestKey \<mapsto> p) \<rparr>))"

definition fetchChildren :: "int \<Rightarrow> string \<Rightarrow> state \<Rightarrow> edge list outcome \<times> state" where
  "fetchChildren now gid s =
     (let cached = map_of (childrenCache s) gid in
      if fresh now cached then (Ready (data (the cached)), s)
      else
        let requestKey = ''children-'' @ gid in
        case pendingRequests s requestKey of
          Some p \<Rightarrow> (Awaiting p, s)
        | None \<Rightarrow>
            let (p, s1) = fetch (children_url gid) (HChildren gid) s
            in (Awaiting p, s1\<lparr> pendingRequests := (pendingRequests s1)(requestKey \<mapsto> p) \<rparr>))"

subsection \<open>Settlement of a request\<close>

text \<open>\<^verbatim>\<open>.then(res => res.ok ? res.json() : fallback)\<close> applied to the outcome of
  \<^verbatim>\<open>fetch\<close>: a rejection passes through, a response that is not ok gives the fallback,
  an ok response gives what \<^verbatim>\<open>res.json()\<close> gives.\<close>

definition body_or :: "'a \<Rightarrow> error + 'a response \<Rightarrow> error + 'a" where
  "body_or fallback net =
     (case net of Inl e \<Rightarrow> Inl e | Inr res \<Rightarrow> if ok res then json res else Inr fallback)"

subsection \<open>renderStrains\<close>

definition INITIAL_RENDER_COUNT :: nat where
  "INITIAL_RENDER_COUNT = 100"

definition strain_item :: "strain \<Rightarrow> li" where
  "strain_item strain = StrainLi \<lparr>
     href = ''https://www.mmrrc.org/catalog/sds.php?mmrrc_id='' @ mmrrc_id strain,
     textContent = mmrrc_id strain,
     target = ''_blank'',
     rel = ''noopener noreferrer'',
     classList = [''hover:underline'', ''text-blue-600''] \<rparr>"

text \<open>\<^verbatim>\<open>for (const strain of strainsToRender)\<close>, appending to the fragment.\<close>

primrec append_items :: "strain list \<Rightarrow> li list \<Rightarrow> li list" where
  "append_items [] fragment = fragment"
| "append_items (strain # rest) fragment = append_items rest (fragment @ [strain_item strain])"

text \<open>\<^verbatim>\<open>for (let i = INITIAL_RENDER_COUNT; i < strains.length; i++)\<close> of the click
  handler, appending to the remaining fragment.\<close>

function remaining_items :: "strain list \<Rightarrow> nat \<Rightarrow> li list \<Rightarrow> li list" where
  "remaining_items strains i fragment =
     (if i < length strains
      then remaining_items strains (Suc i) (fragment @ [strain_item (strains ! i)])
      else fragment)"
  by pat_completeness auto
termination
  by (relation "measure (\<lambda>(strains, i, fragment). length strains - i)") auto

declare remaining_items.simps [simp del]

text \<open>The children of the list element after \<^verbatim>\<open>renderStrains(strains, list)\<close>; the
  function starts by emptying the element, so they depend on \<open>strains\<close> alone.\<close>

definition renderStrains :: "strain list \<Rightarrow> li list" where
  "renderStrains strains =
     (if length strains = 0
      then [Message ''text-gray-500'' ''No strains linked to this term.'']
      else
        let strainsToRender = take INITIAL_RENDER_COUNT strains;
            lst = append_items strainsToRender []
        in if length strains > INITIAL_RENDER_COUNT
           then lst @ [LoadMoreLi (length strains - INITIAL_RENDER_COUNT) strains]
           else lst)"

text \<open>The click handler of the "load more" item \<open>LoadMoreLi n strains\<close>, on the
  children of the list element: the item removes itself, the rest is appended.\<close>

definition loadMore_onclick :: "nat \<Rightarrow> strain list \<Rightarrow> li list \<Rightarrow> li list" where
  "loadMore_onclick n strains lst =
     (let lst1 = remove1 (LoadMoreLi n strains) lst;
          remainingFragment = remaining_items strains INITIAL_RENDER_COUNT []
      in lst1 @ remainingFragment)"

fun is_loadMore :: "li \<Rightarrow> bool" where
  "is_loadMore (LoadMoreLi n strains) = True"
| "is_loadMore (Message c t) = False"
| "is_loadMore (StrainLi a) = False"

fun is_strainLi :: "li \<Rightarrow> bool" where
  "is_strainLi (StrainLi a) = True"
| "is_strainLi (Message c t) = False"
| "is_strainLi (LoadMoreLi n strains) = False"

text \<open>A click on the "load more" item, when the list shows one.\<close>

definition click_loadMore :: "state \<Rightarrow> state" where
  "click_loadMore s =
     (case find is_loadMore (strain_list s) of
        Some (LoadMoreLi n strains) \<Rightarrow>
          s\<lparr> strain_list := loadMore_onclick n strains (strain_list s) \<rparr>
      | _ \<Rightarrow> s)"

subsection \<open>Resuming showStrains\<close>

text \<open>\<^verbatim>\<open>strains || []\<close> on the value of a promise found under a strains key: the
  array of a \<^verbatim>\<open>showStrains\<close> request, or \<^verbatim>\<open>undefined\<close> from \<^verbatim>\<open>prefetchStrains\<close>.
  (Term and children promises sit under keys of another prefix.)\<close>

fun strains_or_empty :: "pvalue \<Rightarrow> strain list" where
  "strains_or_empty (PStrains strains) = strains"
| "strains_or_empty PUndefined = []"
| "strains_or_empty (PTerm v) = []"
| "strains_or_empty (PChildren c) = []"

text \<open>The rest of \<^verbatim>\<open>showStrains\<close> after its \<^verbatim>\<open>await\<close>: render the strains, or on a
  rejection the \<^verbatim>\<open>catch\<close> block. The own promise always carries an array.\<close>

definition resume :: "settled \<Rightarrow> waiter \<Rightarrow> state \<Rightarrow> state" where
  "resume r w s =
     (case r of
        Fulfilled v \<Rightarrow> s\<lparr> strain_list := renderStrains (strains_or_empty v) \<rparr>
      | Rejected error \<Rightarrow>
          s\<lparr> strain_list := [Message ''text-red-500'' ''Error loading strains.''],
             console := console s @ [(''Error fetching strains:'', error)] \<rparr>)"

text \<open>A promise settles: it leaves \<open>inflight\<close>, its result is recorded, and the
  activations awaiting it resume in the order they suspended.\<close>

definition settle :: "nat \<Rightarrow> settled \<Rightarrow> state \<Rightarrow> state" where
  "settle p r s =
     (let s1 = s\<lparr> promises := (promises s)(p \<mapsto> r),
                  inflight := (inflight s)(p := None),
                  waiters := filter (\<lambda>(q, w). q \<noteq> p) (waiters s) \<rparr>
      in fold (\<lambda>(q, w) t. if q = p then resume r w t else t) (waiters s) s1)"

subsection \<open>The callback chains\<close>

text \<open>
  One function for each chain \<^verbatim>\<open>fetch(...).then(...).then(...).catch(...)\<close>, run when
  the request has settled with outcome \<open>net\<close>, at clock reading \<open>now\<close>. The first
  \<^verbatim>\<open>then\<close> callback reads the response only; the shared state is read and written in
  the second \<^verbatim>\<open>then\<close> callback or in the \<^verbatim>\<open>catch\<close> callback, each of which runs to
  completion, so the chain is one step of the model.
\<close>

definition settle_term :: "int \<Rightarrow> string \<Rightarrow> nat \<Rightarrow> error + jsval response \<Rightarrow> state \<Rightarrow> state" where
  "settle_term now gid p net s =
     (let requestKey = ''term-'' @ gid in
      case body_or JNull net of
        Inr d \<Rightarrow>
          let s1 = (if truthy d
                    then s\<lparr> termCache :=
                           AList.update gid \<lparr> data = d, timestamp = now \<rparr> (termCache s) \<rparr>
                    else s);
              s2 = s1\<lparr> pendingRequests := (pendingRequests s1)(requestKey := None) \<rparr>
          in settle p (Fulfilled (PTerm d)) s2
      | Inl error \<Rightarrow>
          let s1 = s\<lparr> pendingRequests := (pendingRequests s)(requestKey := None) \<rparr>;
              s2 = s1\<lparr> console := console s1 @ [(''Error fetching term:'', error)] \<rparr>
          in settle p (Fulfilled (PTerm JNull)) s2)"

definition settle_children ::
  "int \<Rightarrow> string \<Rightarrow> nat \<Rightarrow> error + edge list response \<Rightarrow> state \<Rightarrow> state" where
  "settle_children now gid p net s =
     (let requestKey = ''children-'' @ gid in
      case body_or [] net of
        Inr d \<Rightarrow>
          let s1 = s\<lparr> childrenCache :=
                        AList.update gid \<lparr> data = d, timestamp = now \<rparr> (childrenCache s) \<rparr>;
              s2 = s1\<lparr> pendingRequests := (pendingRequests s1)(requestKey := None) \<rparr>
          in settle p (Fulfilled (PChildren d)) s2
      | Inl error \<Rightarrow>
          let s1 = s\<lparr> pendingRequests := (pendingRequests s)(requestKey := None) \<rparr>;
              s2 = s1\<lparr> console := console s1 @ [(''Error fetching children:'', error)] \<rparr>
          in settle p (Fulfilled (PChildren [])) s2)"

definition settle_prefetch ::
  "int \<Rightarrow> string \<Rightarrow> nat \<Rightarrow> error + strain list response \<Rightarrow> state \<Rightarrow> state" where
  "settle_prefetch now goId p net s =
     (let requestKey = ''strains-'' @ goId in
      case body_or [] net of
        Inr strains \<Rightarrow>
          let s1 = s\<lparr> strainsCache :=
                        AList.update goId \<lparr> data = strains, timestamp = now \<rparr> (strainsCache s) \<rparr>;
              s2 = s1\<lparr> pendingRequests := (pendingRequests s1)(requestKey := None) \<rparr>;
              s3 = s2\<lparr> prefetchQueue := prefetchQueue s2 - {goId} \<rparr>
          in settle p (Fulfilled PUndefined) s3
      | Inl error \<Rightarrow>
          let s1 = s\<lparr> pendingRequests := (pendingRequests s)(requestKey := None) \<rparr>;
              s2 = s1\<lparr> prefetchQueue := prefetchQueue s1 - {goId} \<rparr>;
              s3 = s2\<lparr> console := console s2 @ [(''Error prefetching strains:'', error)] \<rparr>
          in settle p (Fulfilled PUndefined) s3)"

text \<open>The chain of \<^verbatim>\<open>showStrains\<close> has two \<^verbatim>\<open>then\<close> callbacks and no \<^verbatim>\<open>catch\<close>:
  a rejection reaches the promise itself.\<close>

definition settle_show ::
  "int \<Rightarrow> string \<Rightarrow> nat \<Rightarrow> error + strain list response \<Rightarrow> state \<Rightarrow> state" where
  "settle_show now gid p net s =
     (let requestKey = ''strains-'' @ gid in
      case body_or [] net of
        Inr strains \<Rightarrow>
          let s1 = s\<lparr> strainsCache :=
                        AList.update gid \<lparr> data = strains, timestamp = now \<rparr> (strainsCache s) \<rparr>;
              s2 = s1\<lparr> pendingRequests := (pendingRequests s1)(requestKey := None) \<rparr>
          in settle p (Fulfilled (PStrains strains)) s2
      | Inl error \<Rightarrow> settle p (Rejected error) s)"

subsection \<open>Prefetch on hover, showStrains\<close>

definition prefetchStrains :: "string \<Rightarrow> state \<Rightarrow> state" where
  "prefetchStrains goId s =
     (let requestKey = ''strains-'' @ goId in
      if pendingRequests s requestKey \<noteq> None then s
      else
        let (p, s1) = fetch (strains_url goId) (HPrefetch goId) s
        in s1\<lparr> pendingRequests := (pendingRequests s1)(requestKey \<mapsto> p) \<rparr>)"

text \<open>The \<^verbatim>\<open>mouseenter\<close> listener of a node built for \<open>t\<close>.\<close>

definition mouseenter :: "go_term \<Rightarrow> state \<Rightarrow> state" where
  "mouseenter t s =
     (if map_of (strainsCache s) (go_id t) = None \<and> go_id t \<notin> prefetchQueue s
      then prefetchStrains (go_id t) (s\<lparr> prefetchQueue := insert (go_id t) (prefetchQueue s) \<rparr>)
      else s)"

text \<open>\<^verbatim>\<open>showStrains(term)\<close> up to its first suspension. Awaiting a promise that has
  already settled resumes before any other event, so it is run at once.\<close>

definition showStrains :: "int \<Rightarrow> go_term \<Rightarrow> state \<Rightarrow> state" where
  "showStrains now t s =
     (let s0 = s\<lparr> selected_go_label := name t @ '' ('' @ go_id t @ '')'' \<rparr>;
          cached = map_of (strainsCache s0) (go_id t)
      in
      if fresh now cached then s0\<lparr> strain_list := renderStrains (data (the cached)) \<rparr>
      else
        let s1 = s0\<lparr> strain_list := [Message ''text-gray-500'' ''Loading strains...''] \<rparr>;
            requestKey = ''strains-'' @ go_id t
        in
        case pendingRequests s1 requestKey of
          Some p \<Rightarrow>
            (case promises s1 p of
               Some r \<Rightarrow> resume r Joined s1
             | None \<Rightarrow> s1\<lparr> waiters := waiters s1 @ [(p, Joined)] \<rparr>)
        | None \<Rightarrow>
            let (p, s2) = fetch (strains_url (go_id t)) (HShow (go_id t)) s1;
                s3 = s2\<lparr> pendingRequests := (pendingRequests s2)(requestKey \<mapsto> p) \<rparr>
            in s3\<lparr> waiters := waiters s3 @ [(p, Own)] \<rparr>)"

subsection \<open>The periodic sweep\<close>

text \<open>\<^verbatim>\<open>for (const [key, value] of cache.entries())\<close> with the deletion in its body,
  over the entries the Map holds when the loop starts.\<close>

definition sweep_cache :: "int \<Rightarrow> (string \<times> 'a entry) list \<Rightarrow> (string \<times> 'a entry) list" where
  "sweep_cache now cache =
     fold (\<lambda>(key, value) c.
             if now - timestamp value > CACHE_EXPIRY then AList.delete key c else c)
          cache cache"

definition sweep :: "int \<Rightarrow> state \<Rightarrow> state" where
  "sweep now s =
     (let s1 = s\<lparr> termCache := sweep_cache now (termCache s) \<rparr>;
          s2 = s1\<lparr> childrenCache := sweep_cache now (childrenCache s1) \<rparr>
      in s2\<lparr> strainsCache := sweep_cache now (strainsCache s2) \<rparr>)"

subsection \<open>Events and reachable states\<close>

text \<open>What can happen to the page: a call of a fetcher, a hover, a click on a term
  (\<^verbatim>\<open>showStrains\<close>), a click on "load more", a timer tick of the sweep, and the
  settlement of a request. Every event carries the reading of the clock it sees.\<close>

datatype event =
    CallFetchTerm int string
  | CallFetchChildren int string
  | Hover go_term
  | ClickTerm int go_term
  | ClickLoadMore
  | SweepTick int
  | TermResponse int nat "error + jsval response"
  | ChildrenResponse int nat "error + edge list response"
  | StrainsResponse int nat "error + strain list response"

fun step :: "event \<Rightarrow> state \<Rightarrow> state" where
  "step (CallFetchTerm now gid) s = snd (fetchTerm now gid s)"
| "step (CallFetchChildren now gid) s = snd (fetchChildren now gid s)"
| "step (Hover t) s = mouseenter t s"
| "step (ClickTerm now t) s = showStrains now t s"
| "step ClickLoadMore s = click_loadMore s"
| "step (SweepTick now) s = sweep now s"
| "step (TermResponse now p net) s =
     (case inflight s p of Some (HTerm gid) \<Rightarrow> settle_term now gid p net s | _ \<Rightarrow> s)"
| "step (ChildrenResponse now p net) s =
     (case inflight s p of Some (HChildren gid) \<Rightarrow> settle_children now gid p net s | _ \<Rightarrow> s)"
| "step (StrainsResponse now p net) s =
     (case inflight s p of
        Some (HPrefetch gid) \<Rightarrow> settle_prefetch now gid p net s
      | Some (HShow gid) \<Rightarrow> settle_show now gid p net s
      | _ \<Rightarrow> s)"

inductive reachable :: "state \<Rightarrow> bool" where
  reachable_init: "reachable init_state"
| reachable_step: "reachable s \<Longrightarrow> reachable (step e s)"

subsection \<open>Keys, and which events settle a request\<close>

text \<open>The key under which the function that attaches a chain registers its promise.\<close>

fun requestKey :: "handler \<Rightarrow> string" where
  "requestKey (HTerm gid) = ''term-'' @ gid"
| "requestKey (HChildren gid) = ''children-'' @ gid"
| "requestKey (HPrefetch goId) = ''strains-'' @ goId"
| "requestKey (HShow gid) = ''strains-'' @ gid"




section \<open>The simple variant (src/ddb.js)\<close>

text \<open>
  \<^verbatim>\<open>fetchTerm\<close> of the simple variant: a cache without timestamps, no table of
  pending requests and no \<^verbatim>\<open>catch\<close>. The function suspends at \<^verbatim>\<open>await fetch(...)\<close>;
  its promise is numbered by the position of the call in \<open>ddb_sent\<close>, and is settled
  by what the function returns or throws once the response is there.
\<close>

datatype ddb_settled = Returned jsval | Thrown error

record ddb_state =
  ddb_termCache :: "(string \<times> jsval) list"
  ddb_sent :: "string list"
  ddb_suspended :: "nat \<rightharpoonup> string"
  ddb_promises :: "nat \<rightharpoonup> ddb_settled"

definition ddb_init :: ddb_state where
  "ddb_init = \<lparr> ddb_termCache = [], ddb_sent = [], ddb_suspended = Map.empty,
     ddb_promises = Map.empty \<rparr>"

definition ddb_fetchTerm :: "string \<Rightarrow> ddb_state \<Rightarrow> jsval outcome \<times> ddb_state" where
  "ddb_fetchTerm gid s =
     (if map_of (ddb_termCache s) gid \<noteq> None
      then (Ready (the (map_of (ddb_termCache s) gid)), s)
      else
        let p = length (ddb_sent s)
        in (Awaiting p, s\<lparr> ddb_sent := ddb_sent s @ [term_url gid],
                            ddb_suspended := (ddb_suspended s)(p \<mapsto> gid) \<rparr>))"

text \<open>The rest of the function once the request has settled: \<^verbatim>\<open>await fetch\<close> or
  \<^verbatim>\<open>await res.json()\<close> may throw, and nothing catches.\<close>

definition ddb_fetchTerm_resume ::
  "string \<Rightarrow> nat \<Rightarrow> error + jsval response \<Rightarrow> ddb_state \<Rightarrow> ddb_state" where
  "ddb_fetchTerm_resume gid p net s =
     (let s0 = s\<lparr> ddb_suspended := (ddb_suspended s)(p := None) \<rparr> in
      case net of
        Inl error \<Rightarrow> s0\<lparr> ddb_promises := (ddb_promises s0)(p \<mapsto> Thrown error) \<rparr>
      | Inr res \<Rightarrow>
          (case (if ok res then json res else Inr JNull) of
             Inl error \<Rightarrow> s0\<lparr> ddb_promises := (ddb_promises s0)(p \<mapsto> Thrown error) \<rparr>
           | Inr d \<Rightarrow>
               let s1 = (if truthy d
                         then s0\<lparr> ddb_termCache := AList.update gid d (ddb_termCache s0) \<rparr>
                         else s0)
               in s1\<lparr> ddb_promises := (ddb_promises s1)(p \<mapsto> Returned d) \<rparr>))"

section \<open>Example runs\<close>

definition node1 :: jsval where
  "node1 = JObj [(''go_id'', JStr ''GO:1''), (''name'', JStr ''biological_process'')]"

definition term1 :: go_term where
  "term1 = \<lparr> go_id = ''GO:1'', name = ''biological_process'' \<rparr>"

definition strains150 :: "strain list" where
  "strains150 = replicate 150 \<lparr> mmrrc_id = ''37'' \<rparr>"

definition strains50 :: "strain list" where
  "strains50 = replicate 50 \<lparr> mmrrc_id = ''37'' \<rparr>"

text \<open>The term \<^verbatim>\<open>GO:1\<close> fetched at time 0 and answered at once.\<close>

definition cached_at_0 :: state where
  "cached_at_0 =
     step (TermResponse 0 0 (Inr \<lparr> ok = True, json = Inr node1 \<rparr>))
       (step (CallFetchTerm 0 ''GO:1'') init_state)"

text \<open>After that, its children and its strains fetched and answered at time 0 too.\<close>

definition warm_state :: state where
  "warm_state =
     step (StrainsResponse 0 2 (Inr \<lparr> ok = True, json = Inr strains50 \<rparr>))
       (step (ClickTerm 0 term1)
         (step (ChildrenResponse 0 1 (Inr \<lparr> ok = True, json = Inr [\<lparr> child_go_id = ''GO:2'' \<rparr>] \<rparr>))
           (step (CallFetchChildren 0 ''GO:1'') cached_at_0)))"

text \<open>A click on \<^verbatim>\<open>GO:1\<close> from the initial state (the request of \<^verbatim>\<open>showStrains\<close> is in
  flight), and the same run after the request has failed in the transport.\<close>

definition clicked :: state where
  "clicked = step (ClickTerm 0 term1) init_state"

definition show_failed :: state where
  "show_failed = step (StrainsResponse 5 0 (Inl TypeError)) clicked"

text \<open>A call of \<^verbatim>\<open>fetchTerm\<close> for \<^verbatim>\<open>GO:1\<close> from the initial state, in either variant,
  with its request in flight.\<close>

definition term_called :: state where
  "term_called = step (CallFetchTerm 0 ''GO:1'') init_state"

definition ddb_called :: ddb_state where
  "ddb_called = snd (ddb_fetchTerm ''GO:1'' ddb_init)"

definition not_found :: "'a response" where
  "not_found = \<lparr> ok = False, json = Inl SyntaxError \<rparr>"



section \<open>Basic facts\<close>

lemma fresh_Some [simp]: "fresh now (Some e) = (now - timestamp e < CACHE_EXPIRY)"
  by (simp add: fresh_def)

lemma fresh_None [simp]: "\<not> fresh now None"
  by (simp add: fresh_def)

lemma fresh_iff:
  "fresh now c \<longleftrightarrow> (\<exists>e. c = Some e \<and> now - timestamp e < CACHE_EXPIRY)"
  by (cases c) simp_all

lemma fetchTerm_miss:
  "\<not> fresh now (map_of (termCache s) gid) \<Longrightarrow>
   fetchTerm now gid s =
     (case pendingRequests s (''term-'' @ gid) of
        Some p \<Rightarrow> (Awaiting p, s)
      | None \<Rightarrow> (Awaiting (length (sent s)),
          s\<lparr> sent := sent s @ [term_url gid],
             inflight := (inflight s)(length (sent s) \<mapsto> HTerm gid),
             pendingRequests := (pendingRequests s)(''term-'' @ gid \<mapsto> length (sent s)) \<rparr>))"
  by (simp add: fetchTerm_def fetch_def Let_def split: option.splits)

lemma fetchChildren_miss:
  "\<not> fresh now (map_of (childrenCache s) gid) \<Longrightarrow>
   fetchChildren now gid s =
     (case pendingRequests s (''children-'' @ gid) of
        Some p \<Rightarrow> (Awaiting p, s)
      | None \<Rightarrow> (Awaiting (length (sent s)),
          s\<lparr> sent := sent s @ [children_url gid],
             inflight := (inflight s)(length (sent s) \<mapsto> HChildren gid),
             pendingRequests := (pendingRequests s)(''children-'' @ gid \<mapsto> length (sent s)) \<rparr>))"
  by (simp add: fetchChildren_def fetch_def Let_def split: option.splits)

lemma showStrains_miss:
  "\<not> fresh now (map_of (strainsCache s) (go_id t)) \<Longrightarrow>
   showStrains now t s =
     (let s1 = s\<lparr> selected_go_label := name t @ '' ('' @ go_id t @ '')'',
                  strain_list := [Message ''text-gray-500'' ''Loading strains...''] \<rparr>
      in case pendingRequests s (''strains-'' @ go_id t) of
        Some p \<Rightarrow>
            (case promises s p of
               Some r \<Rightarrow> resume r Joined s1
             | None \<Rightarrow> s1\<lparr> waiters := waiters s @ [(p, Joined)] \<rparr>)
      | None \<Rightarrow> s1\<lparr> sent := sent s @ [strains_url (go_id t)],
             inflight := (inflight s)(length (sent s) \<mapsto> HShow (go_id t)),
             pendingRequests := (pendingRequests s)(''strains-'' @ go_id t \<mapsto> length (sent s)),
             waiters := waiters s @ [(length (sent s), Own)] \<rparr>)"
  by (simp add: showStrains_def fetch_def Let_def split: option.splits)

subsection \<open>The example runs, evaluated\<close>

lemma cached_at_0_eq:
  "cached_at_0 = init_state \<lparr>
      termCache := [(''GO:1'', \<lparr> data = node1, timestamp = 0 \<rparr>)],
      sent := [term_url ''GO:1''],
      promises := [0 \<mapsto> Fulfilled (PTerm node1)] \<rparr>"
  by (simp add: cached_at_0_def fetchTerm_def fresh_def init_state_def fetch_def settle_term_def
      body_or_def settle_def node1_def Let_def)

lemma warm_state_eq:
  "warm_state = init_state \<lparr>
      termCache := [(''GO:1'', \<lparr> data = node1, timestamp = 0 \<rparr>)],
      childrenCache := [(''GO:1'', \<lparr> data = [\<lparr> child_go_id = ''GO:2'' \<rparr>], timestamp = 0 \<rparr>)],
      strainsCache := [(''GO:1'', \<lparr> data = strains50, timestamp = 0 \<rparr>)],
      sent := [term_url ''GO:1'', children_url ''GO:1'', strains_url ''GO:1''],
      promises := [0 \<mapsto> Fulfilled (PTerm node1),
                   1 \<mapsto> Fulfilled (PChildren [\<lparr> child_go_id = ''GO:2'' \<rparr>]),
                   2 \<mapsto> Fulfilled (PStrains strains50)],
      selected_go_label := ''biological_process (GO:1)'',
      strain_list := renderStrains strains50 \<rparr>"
  by (simp add: warm_state_def cached_at_0_eq fetchChildren_def fresh_def init_state_def fetch_def
      settle_children_def body_or_def settle_def showStrains_def term1_def settle_show_def resume_def
      Let_def CACHE_EXPIRY_def numeral_2_eq_2)

section \<open>The bounded renderer\<close>

lemma append_items_map: "append_items xs fragment = fragment @ map strain_item xs"
  by (induction xs arbitrary: fragment) simp_all

lemma remaining_items_drop:
  "remaining_items strains i fragment = fragment @ map strain_item (drop i strains)"
proof (induction strains i fragment rule: remaining_items.induct)
  case (1 strains i fragment)
  show ?case
  proof (cases "i < length strains")
    case True
    then have "drop i strains = strains ! i # drop (Suc i) strains"
      by (simp add: Cons_nth_drop_Suc)
    with True "1.IH" show ?thesis
      by (simp add: remaining_items.simps [of strains i])
  next
    case False
    then show ?thesis
      by (simp add: remaining_items.simps [of strains i])
  qed
qed

lemma renderStrains_eq:
  "renderStrains strains =
     (if strains = [] then [Message ''text-gray-500'' ''No strains linked to this term.'']
      else map strain_item (take INITIAL_RENDER_COUNT strains) @
           (if INITIAL_RENDER_COUNT < length strains
            then [LoadMoreLi (length strains - INITIAL_RENDER_COUNT) strains] else []))"
  by (simp add: renderStrains_def append_items_map Let_def)

lemma is_loadMore_strain_item [simp]: "\<not> is_loadMore (strain_item x)"
  by (simp add: strain_item_def)

lemma is_strainLi_strain_item [simp]: "is_strainLi (strain_item x)"
  by (simp add: strain_item_def)

lemma find_loadMore_items:
  "find is_loadMore (map strain_item xs @ ys) = find is_loadMore ys"
  by (induction xs) simp_all

lemma remove1_loadMore_items:
  "remove1 (LoadMoreLi n strains) (map strain_item xs @ ys) =
   map strain_item xs @ remove1 (LoadMoreLi n strains) ys"
  by (induction xs) (simp_all add: strain_item_def)

text \<open>
  C8. A list of more than 100 strains (150, say) is rendered as its first 100 items
  followed by exactly one "load more" item; a click on that item leaves the 100 items,
  removes the item and appends the remaining ones in one batch, so that the list shows
  every strain and no control. A list of at most 100 strains (50, say) is rendered
  without a "load more" item, and all its strains are rendered at once.
\<close>

theorem renderStrains_bounded:
  "(INITIAL_RENDER_COUNT < length strains \<longrightarrow>
      renderStrains strains =
        map strain_item (take 100 strains) @ [LoadMoreLi (length strains - 100) strains]
      \<and> strain_list (click_loadMore (s\<lparr> strain_list := renderStrains strains \<rparr>)) =
        map strain_item (take 100 strains) @ map strain_item (drop 100 strains)
      \<and> strain_list (click_loadMore (s\<lparr> strain_list := renderStrains strains \<rparr>)) =
        map strain_item strains)
   \<and> (length strains \<le> INITIAL_RENDER_COUNT \<longrightarrow>
      filter is_loadMore (renderStrains strains) = []
      \<and> filter is_strainLi (renderStrains strains) = map strain_item strains)"
proof (intro conjI impI)
  assume big: "INITIAL_RENDER_COUNT < length strains"
  then have ne: "strains \<noteq> []" by auto
  from big ne show r: "renderStrains strains =
        map strain_item (take 100 strains) @ [LoadMoreLi (length strains - 100) strains]"
    by (simp add: renderStrains_eq INITIAL_RENDER_COUNT_def)
  show c: "strain_list (click_loadMore (s\<lparr> strain_list := renderStrains strains \<rparr>)) =
        map strain_item (take 100 strains) @ map strain_item (drop 100 strains)"
    by (simp add: click_loadMore_def r find_loadMore_items loadMore_onclick_def
        remove1_loadMore_items remaining_items_drop INITIAL_RENDER_COUNT_def)
  have "map strain_item (take 100 strains) @ map strain_item (drop 100 strains) =
        map strain_item (take 100 strains @ drop 100 strains)"
    by (simp only: map_append)
  with c show "strain_list (click_loadMore (s\<lparr> strain_list := renderStrains strains \<rparr>)) =
        map strain_item strains"
    by (simp only: append_take_drop_id)
next
  assume small: "length strains \<le> INITIAL_RENDER_COUNT"
  show "filter is_loadMore (renderStrains strains) = []"
    using small by (simp add: renderStrains_eq)
  show "filter is_strainLi (renderStrains strains) = map strain_item strains"
    using small by (simp add: renderStrains_eq)
qed

theorem renderStrains_bounded_witness:
  "INITIAL_RENDER_COUNT < length strains150
   \<and> length (filter is_strainLi (renderStrains strains150)) = 100
   \<and> length (filter is_loadMore (renderStrains strains150)) = 1
   \<and> length (renderStrains strains150) = 101
   \<and> length (strain_list (click_loadMore (init_state\<lparr> strain_list := renderStrains strains150 \<rparr>))) = 150
   \<and> filter is_loadMore
        (strain_list (click_loadMore (init_state\<lparr> strain_list := renderStrains strains150 \<rparr>))) = []
   \<and> length strains50 \<le> INITIAL_RENDER_COUNT
   \<and> filter is_loadMore (renderStrains strains50) = []
   \<and> length (renderStrains strains50) = 50"
proof -
  have big: "INITIAL_RENDER_COUNT < length strains150"
    by (simp add: strains150_def INITIAL_RENDER_COUNT_def)
  have small: "length strains50 \<le> INITIAL_RENDER_COUNT"
    by (simp add: strains50_def INITIAL_RENDER_COUNT_def)
  note a = renderStrains_bounded [of strains150 init_state, THEN conjunct1, rule_format, OF big]
  note b = renderStrains_bounded [of strains50 init_state, THEN conjunct2, rule_format, OF small]
  have r150: "renderStrains strains150 =
      map strain_item (take 100 strains150) @ [LoadMoreLi (length strains150 - 100) strains150]"
    using a by (rule conjunct1)
  have c150: "strain_list (click_loadMore (init_state\<lparr> strain_list := renderStrains strains150 \<rparr>)) =
      map strain_item strains150"
    using a by (elim conjE)
  have n1: "length (filter is_strainLi (renderStrains strains150)) = 100"
    unfolding r150 by (simp add: strains150_def)
  have n2: "length (filter is_loadMore (renderStrains strains150)) = 1"
    unfolding r150 by (simp add: strains150_def)
  have n3: "length (renderStrains strains150) = 101"
    unfolding r150 by (simp add: strains150_def)
  have n4: "length (strain_list (click_loadMore (init_state\<lparr> strain_list := renderStrains strains150 \<rparr>)))
      = 150"
    unfolding c150 by (simp add: strains150_def)
  have n5: "filter is_loadMore
      (strain_list (click_loadMore (init_state\<lparr> strain_list := renderStrains strains150 \<rparr>))) = []"
    unfolding c150 by simp
  have n6: "filter is_loadMore (renderStrains strains50) = []"
    using b by (rule conjunct1)
  have "filter is_strainLi (renderStrains strains50) = map strain_item strains50"
    using b by (rule conjunct2)
  moreover have "filter is_strainLi (renderStrains strains50) = renderStrains strains50"
    by (simp add: renderStrains_eq strains50_def INITIAL_RENDER_COUNT_def)
  ultimately have "renderStrains strains50 = map strain_item strains50"
    by (simp only:)
  then have n7: "length (renderStrains strains50) = 50"
    by (simp add: strains50_def)
  from big n1 n2 n3 n4 n5 small n6 n7 show ?thesis
    by (intro conjI)
qed

section \<open>The periodic sweep\<close>

lemma sweep_fold_lookup:
  "map_of (fold (\<lambda>(key, value) c.
             if now - timestamp value > CACHE_EXPIRY then AList.delete key c else c) xs cache) k =
   (if \<exists>e. (k, e) \<in> set xs \<and> now - timestamp e > CACHE_EXPIRY then None else map_of cache k)"
proof (induction xs arbitrary: cache)
  case Nil
  show ?case by simp
next
  case (Cons x xs)
  obtain key v where x: "x = (key, v)" by (cases x)
  show ?case
    unfolding x by (auto simp: Cons.IH delete_conv')
qed

lemma sweep_cache_lookup:
  assumes "distinct (map fst cache)"
  shows "map_of (sweep_cache now cache) k =
     (case map_of cache k of
        None \<Rightarrow> None
      | Some e \<Rightarrow> if now - timestamp e > CACHE_EXPIRY then None else Some e)"
proof (cases "map_of cache k")
  case None
  then show ?thesis
    by (simp add: sweep_cache_def sweep_fold_lookup)
next
  case (Some e)
  with assms have "\<And>e'. (k, e') \<in> set cache \<longleftrightarrow> e' = e"
    by (metis map_of_eq_Some_iff option.inject)
  with Some show ?thesis
    by (simp add: sweep_cache_def sweep_fold_lookup)
qed

lemma sweep_cache_only_deletes:
  "map_of (sweep_cache now cache) k = Some e \<Longrightarrow> map_of cache k = Some e"
  by (simp add: sweep_cache_def sweep_fold_lookup split: if_splits)

text \<open>
  C6, at the input where the code departs from the claim. The term \<^verbatim>\<open>GO:1\<close> is cached
  with timestamp 0. A sweep at \<open>now = CACHE_EXPIRY\<close>, when the age of the entry is
  exactly the TTL, keeps the entry, although a read at that time treats it as expired;
  the sweep one millisecond later removes it. The interval of the sweep is a sixth of
  the TTL.
\<close>

theorem sweep_keeps_entry_of_age_TTL:
  "termCache (step (SweepTick CACHE_EXPIRY) cached_at_0) =
     [(''GO:1'', \<lparr> data = node1, timestamp = 0 \<rparr>)]
   \<and> \<not> fresh CACHE_EXPIRY (map_of (termCache (step (SweepTick CACHE_EXPIRY) cached_at_0)) ''GO:1'')
   \<and> termCache (step (SweepTick (CACHE_EXPIRY + 1)) cached_at_0) = []
   \<and> SWEEP_INTERVAL * 6 = CACHE_EXPIRY \<and> SWEEP_INTERVAL < CACHE_EXPIRY"
  by (simp add: sweep_def sweep_cache_def cached_at_0_eq init_state_def Let_def
      CACHE_EXPIRY_def SWEEP_INTERVAL_def)

section \<open>Cache reads\<close>

text \<open>
  C9. On a cache hit (the entry is there and its age is below the TTL), \<^verbatim>\<open>fetchTerm\<close>
  and \<^verbatim>\<open>fetchChildren\<close> return the cached data and leave the whole state as it was,
  and \<^verbatim>\<open>showStrains\<close> changes the label and the rendered list only: no cache entry
  and no timestamp changes, the table of pending requests and the prefetch set are
  untouched, and no request is sent.
\<close>

theorem cache_hit_frame:
  "(fresh now (map_of (termCache s) gid) \<longrightarrow>
      fetchTerm now gid s = (Ready (data (the (map_of (termCache s) gid))), s))
   \<and> (fresh now (map_of (childrenCache s) gid) \<longrightarrow>
      fetchChildren now gid s = (Ready (data (the (map_of (childrenCache s) gid))), s))
   \<and> (fresh now (map_of (strainsCache s) (go_id t)) \<longrightarrow>
      showStrains now t s =
        s\<lparr> selected_go_label := name t @ '' ('' @ go_id t @ '')'',
           strain_list := renderStrains (data (the (map_of (strainsCache s) (go_id t)))) \<rparr>
      \<and> termCache (showStrains now t s) = termCache s
      \<and> childrenCache (showStrains now t s) = childrenCache s
      \<and> strainsCache (showStrains now t s) = strainsCache s
      \<and> pendingRequests (showStrains now t s) = pendingRequests s
      \<and> prefetchQueue (showStrains now t s) = prefetchQueue s
      \<and> sent (showStrains now t s) = sent s
      \<and> inflight (showStrains now t s) = inflight s)"
  by (simp add: fetchTerm_def fetchChildren_def showStrains_def Let_def)

theorem cache_hit_frame_witness:
  "fresh 1000 (map_of (termCache warm_state) ''GO:1'')
   \<and> fresh 1000 (map_of (childrenCache warm_state) ''GO:1'')
   \<and> fresh 1000 (map_of (strainsCache warm_state) (go_id term1))
   \<and> fetchTerm 1000 ''GO:1'' warm_state = (Ready node1, warm_state)
   \<and> fetchChildren 1000 ''GO:1'' warm_state = (Ready [\<lparr> child_go_id = ''GO:2'' \<rparr>], warm_state)
   \<and> showStrains 1000 term1 warm_state = warm_state
   \<and> sent (showStrains 1000 term1 warm_state) = sent warm_state"
proof -
  have a: "fresh 1000 (map_of (termCache warm_state) ''GO:1'')"
    and b: "fresh 1000 (map_of (childrenCache warm_state) ''GO:1'')"
    and c: "fresh 1000 (map_of (strainsCache warm_state) (go_id term1))"
    by (simp_all add: warm_state_eq init_state_def term1_def CACHE_EXPIRY_def)
  show ?thesis
    using a b c cache_hit_frame [of 1000 warm_state "''GO:1''" term1]
    by (simp add: warm_state_eq init_state_def term1_def)
qed

text \<open>
  C3. In each of the three namespaces the read returns the stored value exactly when
  the entry is there and \<open>now - timestamp < CACHE_EXPIRY\<close>: \<^verbatim>\<open>fetchTerm\<close> and
  \<^verbatim>\<open>fetchChildren\<close> answer at once (with the stored data) if and only if that holds,
  and \<^verbatim>\<open>showStrains\<close> then renders the stored list. When the entry is absent or its age
  is at least the TTL, each of the three does what it does on the same state with the
  entry deleted (the entry itself staying where it is): the fetch proceeds as on a
  miss.
\<close>

theorem cache_read_expiry:
  "((\<exists>v. fst (fetchTerm now gid s) = Ready v) \<longleftrightarrow>
      (\<exists>e. map_of (termCache s) gid = Some e \<and> now - timestamp e < CACHE_EXPIRY))
   \<and> ((\<exists>v. fst (fetchChildren now gid s) = Ready v) \<longleftrightarrow>
      (\<exists>e. map_of (childrenCache s) gid = Some e \<and> now - timestamp e < CACHE_EXPIRY))
   \<and> (\<forall>e. map_of (termCache s) gid = Some e \<and> now - timestamp e < CACHE_EXPIRY \<longrightarrow>
        fst (fetchTerm now gid s) = Ready (data e))
   \<and> (\<forall>e. map_of (childrenCache s) gid = Some e \<and> now - timestamp e < CACHE_EXPIRY \<longrightarrow>
        fst (fetchChildren now gid s) = Ready (data e))
   \<and> (\<forall>e. map_of (strainsCache s) (go_id t) = Some e \<and> now - timestamp e < CACHE_EXPIRY \<longrightarrow>
        strain_list (showStrains now t s) = renderStrains (data e))
   \<and> (\<not> (\<exists>e. map_of (termCache s) gid = Some e \<and> now - timestamp e < CACHE_EXPIRY) \<longrightarrow>
        fetchTerm now gid s =
          (fst (fetchTerm now gid (s\<lparr> termCache := AList.delete gid (termCache s) \<rparr>)),
           (snd (fetchTerm now gid (s\<lparr> termCache := AList.delete gid (termCache s) \<rparr>)))
             \<lparr> termCache := termCache s \<rparr>))
   \<and> (\<not> (\<exists>e. map_of (childrenCache s) gid = Some e \<and> now - timestamp e < CACHE_EXPIRY) \<longrightarrow>
        fetchChildren now gid s =
          (fst (fetchChildren now gid (s\<lparr> childrenCache := AList.delete gid (childrenCache s) \<rparr>)),
           (snd (fetchChildren now gid (s\<lparr> childrenCache := AList.delete gid (childrenCache s) \<rparr>)))
             \<lparr> childrenCache := childrenCache s \<rparr>))
   \<and> (\<not> (\<exists>e. map_of (strainsCache s) (go_id t) = Some e \<and> now - timestamp e < CACHE_EXPIRY) \<longrightarrow>
        showStrains now t s =
          (showStrains now t (s\<lparr> strainsCache := AList.delete (go_id t) (strainsCache s) \<rparr>))
             \<lparr> strainsCache := strainsCache s \<rparr>)"
proof -
  have a: "(\<exists>v. fst (fetchTerm now gid s) = Ready v) \<longleftrightarrow> fresh now (map_of (termCache s) gid)"
    by (cases "fresh now (map_of (termCache s) gid)")
       (simp_all add: fetchTerm_def fetch_def Let_def split: option.splits)
  have b: "(\<exists>v. fst (fetchChildren now gid s) = Ready v) \<longleftrightarrow>
      fresh now (map_of (childrenCache s) gid)"
    by (cases "fresh now (map_of (childrenCache s) gid)")
       (simp_all add: fetchChildren_def fetch_def Let_def split: option.splits)
  have c: "fst (fetchTerm now gid s) = Ready (data e)"
    if "map_of (termCache s) gid = Some e \<and> now - timestamp e < CACHE_EXPIRY" for e
    using that by (simp add: fetchTerm_def Let_def)
  have d: "fst (fetchChildren now gid s) = Ready (data e)"
    if "map_of (childrenCache s) gid = Some e \<and> now - timestamp e < CACHE_EXPIRY" for e
    using that by (simp add: fetchChildren_def Let_def)
  have e: "strain_list (showStrains now t s) = renderStrains (data e)"
    if "map_of (strainsCache s) (go_id t) = Some e \<and> now - timestamp e < CACHE_EXPIRY" for e
    using that by (simp add: showStrains_def Let_def)
  have f: "fetchTerm now gid s =
          (fst (fetchTerm now gid (s\<lparr> termCache := AList.delete gid (termCache s) \<rparr>)),
           (snd (fetchTerm now gid (s\<lparr> termCache := AList.delete gid (termCache s) \<rparr>)))
             \<lparr> termCache := termCache s \<rparr>)"
    if "\<not> fresh now (map_of (termCache s) gid)"
    using that by (simp add: fetchTerm_miss delete_conv' split: option.splits)
  have g: "fetchChildren now gid s =
          (fst (fetchChildren now gid (s\<lparr> childrenCache := AList.delete gid (childrenCache s) \<rparr>)),
           (snd (fetchChildren now gid (s\<lparr> childrenCache := AList.delete gid (childrenCache s) \<rparr>)))
             \<lparr> childrenCache := childrenCache s \<rparr>)"
    if "\<not> fresh now (map_of (childrenCache s) gid)"
    using that by (simp add: fetchChildren_miss delete_conv' split: option.splits)
  have h: "showStrains now t s =
          (showStrains now t (s\<lparr> strainsCache := AList.delete (go_id t) (strainsCache s) \<rparr>))
             \<lparr> strainsCache := strainsCache s \<rparr>"
    if "\<not> fresh now (map_of (strainsCache s) (go_id t))"
    using that
    by (simp add: showStrains_miss delete_conv' resume_def Let_def
        split: option.splits settled.splits)
  show ?thesis
    using a b c d e f g h unfolding fresh_iff by blast
qed

theorem cache_read_expiry_witness:
  "map_of (termCache warm_state) ''GO:1'' = Some \<lparr> data = node1, timestamp = 0 \<rparr>
   \<and> fst (fetchTerm (CACHE_EXPIRY - 1) ''GO:1'' warm_state) = Ready node1
   \<and> fst (fetchTerm CACHE_EXPIRY ''GO:1'' warm_state) = Awaiting 3
   \<and> fst (fetchChildren (CACHE_EXPIRY - 1) ''GO:1'' warm_state) = Ready [\<lparr> child_go_id = ''GO:2'' \<rparr>]
   \<and> fst (fetchChildren CACHE_EXPIRY ''GO:1'' warm_state) = Awaiting 3
   \<and> strain_list (showStrains (CACHE_EXPIRY - 1) term1 warm_state) = renderStrains strains50
   \<and> sent (showStrains CACHE_EXPIRY term1 warm_state) = sent warm_state @ [strains_url ''GO:1'']"
proof -
  note hit = cache_read_expiry [of "CACHE_EXPIRY - 1" "''GO:1''" warm_state term1]
  note miss = cache_read_expiry [of CACHE_EXPIRY "''GO:1''" warm_state term1]
  have t: "map_of (termCache warm_state) ''GO:1'' = Some \<lparr> data = node1, timestamp = 0 \<rparr>"
    and c: "map_of (childrenCache warm_state) ''GO:1'' =
              Some \<lparr> data = [\<lparr> child_go_id = ''GO:2'' \<rparr>], timestamp = 0 \<rparr>"
    and l: "map_of (strainsCache warm_state) (go_id term1) =
              Some \<lparr> data = strains50, timestamp = 0 \<rparr>"
    by (simp_all add: warm_state_eq init_state_def term1_def)
  have h1: "fst (fetchTerm (CACHE_EXPIRY - 1) ''GO:1'' warm_state) = Ready node1"
    using hit t by simp
  have h2: "fst (fetchChildren (CACHE_EXPIRY - 1) ''GO:1'' warm_state) =
              Ready [\<lparr> child_go_id = ''GO:2'' \<rparr>]"
    using hit c by simp
  have h3: "strain_list (showStrains (CACHE_EXPIRY - 1) term1 warm_state) = renderStrains strains50"
    using hit l by simp
  have m1: "fetchTerm CACHE_EXPIRY ''GO:1'' warm_state =
          (fst (fetchTerm CACHE_EXPIRY ''GO:1''
                 (warm_state\<lparr> termCache := AList.delete ''GO:1'' (termCache warm_state) \<rparr>)),
           (snd (fetchTerm CACHE_EXPIRY ''GO:1''
                 (warm_state\<lparr> termCache := AList.delete ''GO:1'' (termCache warm_state) \<rparr>)))
             \<lparr> termCache := termCache warm_state \<rparr>)"
    using miss t by simp
  have m2: "fetchChildren CACHE_EXPIRY ''GO:1'' warm_state =
          (fst (fetchChildren CACHE_EXPIRY ''GO:1''
                 (warm_state\<lparr> childrenCache := AList.delete ''GO:1'' (childrenCache warm_state) \<rparr>)),
           (snd (fetchChildren CACHE_EXPIRY ''GO:1''
                 (warm_state\<lparr> childrenCache := AList.delete ''GO:1'' (childrenCache warm_state) \<rparr>)))
             \<lparr> childrenCache := childrenCache warm_state \<rparr>)"
    using miss c by simp
  have m3: "showStrains CACHE_EXPIRY term1 warm_state =
          (showStrains CACHE_EXPIRY term1
             (warm_state\<lparr> strainsCache := AList.delete (go_id term1) (strainsCache warm_state) \<rparr>))
             \<lparr> strainsCache := strainsCache warm_state \<rparr>"
    using miss l by simp
  have e1: "fst (fetchTerm CACHE_EXPIRY ''GO:1'' warm_state) = Awaiting 3"
    by (subst m1) (simp add: warm_state_eq init_state_def fetchTerm_def fetch_def Let_def)
  have e2: "fst (fetchChildren CACHE_EXPIRY ''GO:1'' warm_state) = Awaiting 3"
    by (subst m2) (simp add: warm_state_eq init_state_def fetchChildren_def fetch_def Let_def)
  have e3: "sent (showStrains CACHE_EXPIRY term1 warm_state) = sent warm_state @ [strains_url ''GO:1'']"
    by (subst m3) (simp add: warm_state_eq init_state_def term1_def showStrains_def fetch_def Let_def)
  show ?thesis
    using t h1 h2 h3 e1 e2 e3 by simp
qed


section \<open>Settlement\<close>

lemma resume_frame [simp]:
  "termCache (resume r w s) = termCache s"
  "childrenCache (resume r w s) = childrenCache s"
  "strainsCache (resume r w s) = strainsCache s"
  "pendingRequests (resume r w s) = pendingRequests s"
  "prefetchQueue (resume r w s) = prefetchQueue s"
  "sent (resume r w s) = sent s"
  "inflight (resume r w s) = inflight s"
  "promises (resume r w s) = promises s"
  "waiters (resume r w s) = waiters s"
  by (simp_all add: resume_def split: settled.splits)

lemma resume_console [simp]: "console (resume (Fulfilled v) w s) = console s"
  by (simp add: resume_def)

lemma fold_resume_frame:
  "termCache (fold (\<lambda>(q, w) t. if q = p then resume r w t else t) ws s) = termCache s
   \<and> childrenCache (fold (\<lambda>(q, w) t. if q = p then resume r w t else t) ws s) = childrenCache s
   \<and> strainsCache (fold (\<lambda>(q, w) t. if q = p then resume r w t else t) ws s) = strainsCache s
   \<and> pendingRequests (fold (\<lambda>(q, w) t. if q = p then resume r w t else t) ws s) = pendingRequests s
   \<and> prefetchQueue (fold (\<lambda>(q, w) t. if q = p then resume r w t else t) ws s) = prefetchQueue s
   \<and> sent (fold (\<lambda>(q, w) t. if q = p then resume r w t else t) ws s) = sent s
   \<and> inflight (fold (\<lambda>(q, w) t. if q = p then resume r w t else t) ws s) = inflight s
   \<and> promises (fold (\<lambda>(q, w) t. if q = p then resume r w t else t) ws s) = promises s
   \<and> waiters (fold (\<lambda>(q, w) t. if q = p then resume r w t else t) ws s) = waiters s"
  by (induction ws arbitrary: s) (simp_all add: split_def)

lemma fold_resume_console:
  "console (fold (\<lambda>(q, w) t. if q = p then resume (Fulfilled v) w t else t) ws s) = console s"
  by (induction ws arbitrary: s) (simp_all add: split_def)

lemma settle_frame [simp]:
  "termCache (settle p r s) = termCache s"
  "childrenCache (settle p r s) = childrenCache s"
  "strainsCache (settle p r s) = strainsCache s"
  "pendingRequests (settle p r s) = pendingRequests s"
  "prefetchQueue (settle p r s) = prefetchQueue s"
  "sent (settle p r s) = sent s"
  "inflight (settle p r s) = (inflight s)(p := None)"
  "promises (settle p r s) = (promises s)(p \<mapsto> r)"
  "waiters (settle p r s) = filter (\<lambda>(q, w). q \<noteq> p) (waiters s)"
  by (simp_all add: settle_def Let_def fold_resume_frame)

lemma settle_console [simp]: "console (settle p (Fulfilled v) s) = console s"
  by (simp add: settle_def Let_def fold_resume_console)

lemma body_or_cases:
  "body_or fallback net = Inl e \<longleftrightarrow>
     net = Inl e \<or> (\<exists>res. net = Inr res \<and> ok res \<and> json res = Inl e)"
  "body_or fallback net = Inr d \<longleftrightarrow>
     (\<exists>res. net = Inr res \<and> (if ok res then json res = Inr d else d = fallback))"
  by (auto simp: body_or_def split: sum.splits)


subsection \<open>More example runs, evaluated\<close>

lemma clicked_eq:
  "clicked = init_state \<lparr>
      pendingRequests := [''strains-GO:1'' \<mapsto> 0],
      sent := [strains_url ''GO:1''],
      inflight := [0 \<mapsto> HShow ''GO:1''],
      waiters := [(0, Own)],
      selected_go_label := ''biological_process (GO:1)'',
      strain_list := [Message ''text-gray-500'' ''Loading strains...''] \<rparr>"
  by (simp add: clicked_def showStrains_def term1_def fresh_def fetch_def init_state_def Let_def)

lemma show_failed_eq:
  "show_failed = init_state \<lparr>
      pendingRequests := [''strains-GO:1'' \<mapsto> 0],
      sent := [strains_url ''GO:1''],
      promises := [0 \<mapsto> Rejected TypeError],
      console := [(''Error fetching strains:'', TypeError)],
      selected_go_label := ''biological_process (GO:1)'',
      strain_list := [Message ''text-red-500'' ''Error loading strains.''] \<rparr>"
  by (simp add: show_failed_def clicked_eq init_state_def settle_show_def body_or_def settle_def
      resume_def Let_def)

section \<open>Pending requests after a failure\<close>

text \<open>
  C1, at the input where the code departs from the claim. \<^verbatim>\<open>showStrains\<close> is called
  for \<^verbatim>\<open>GO:1\<close> and its request fails in the transport. The promise is rejected and no
  longer in flight, but the entry \<^verbatim>\<open>strains-GO:1\<close> stays in \<^verbatim>\<open>pendingRequests\<close>. A
  second call of \<^verbatim>\<open>showStrains\<close> finds it, sends no request and shows the error
  again; a hover marks the node in the prefetch set and sends nothing either.
\<close>

theorem showStrains_failure_keeps_pending:
  "pendingRequests show_failed ''strains-GO:1'' = Some 0
   \<and> promises show_failed 0 = Some (Rejected TypeError)
   \<and> inflight show_failed 0 = None
   \<and> sent (step (ClickTerm 10 term1) show_failed) = sent show_failed
   \<and> strain_list (step (ClickTerm 10 term1) show_failed) =
       [Message ''text-red-500'' ''Error loading strains.'']
   \<and> pendingRequests (step (ClickTerm 10 term1) show_failed) ''strains-GO:1'' = Some 0
   \<and> sent (step (Hover term1) show_failed) = sent show_failed
   \<and> prefetchQueue (step (Hover term1) show_failed) = {''GO:1''}"
  by (simp add: show_failed_eq init_state_def showStrains_def term1_def fresh_def resume_def
      mouseenter_def prefetchStrains_def Let_def)

section \<open>What creates a cache entry\<close>

lemma caches_fetchTerm [simp]:
  "termCache (snd (fetchTerm now gid s)) = termCache s"
  "childrenCache (snd (fetchTerm now gid s)) = childrenCache s"
  "strainsCache (snd (fetchTerm now gid s)) = strainsCache s"
  by (simp_all add: fetchTerm_def fetch_def Let_def split: option.splits)

lemma caches_fetchChildren [simp]:
  "termCache (snd (fetchChildren now gid s)) = termCache s"
  "childrenCache (snd (fetchChildren now gid s)) = childrenCache s"
  "strainsCache (snd (fetchChildren now gid s)) = strainsCache s"
  by (simp_all add: fetchChildren_def fetch_def Let_def split: option.splits)

lemma caches_mouseenter [simp]:
  "termCache (mouseenter t s) = termCache s"
  "childrenCache (mouseenter t s) = childrenCache s"
  "strainsCache (mouseenter t s) = strainsCache s"
  by (simp_all add: mouseenter_def prefetchStrains_def fetch_def Let_def)

lemma caches_showStrains [simp]:
  "termCache (showStrains now t s) = termCache s"
  "childrenCache (showStrains now t s) = childrenCache s"
  "strainsCache (showStrains now t s) = strainsCache s"
  by (simp_all add: showStrains_def fetch_def Let_def split: option.splits)

lemma caches_click_loadMore [simp]:
  "termCache (click_loadMore s) = termCache s"
  "childrenCache (click_loadMore s) = childrenCache s"
  "strainsCache (click_loadMore s) = strainsCache s"
  by (simp_all add: click_loadMore_def split: option.splits li.splits)

lemma caches_sweep [simp]:
  "termCache (sweep now s) = sweep_cache now (termCache s)"
  "childrenCache (sweep now s) = sweep_cache now (childrenCache s)"
  "strainsCache (sweep now s) = sweep_cache now (strainsCache s)"
  by (simp_all add: sweep_def Let_def)

lemma caches_settle_term [simp]:
  "termCache (settle_term now gid p net s) =
     (case body_or JNull net of
        Inr d \<Rightarrow> if truthy d
                 then AList.update gid \<lparr> data = d, timestamp = now \<rparr> (termCache s)
                 else termCache s
      | Inl e \<Rightarrow> termCache s)"
  "childrenCache (settle_term now gid p net s) = childrenCache s"
  "strainsCache (settle_term now gid p net s) = strainsCache s"
  by (simp_all add: settle_term_def Let_def split: sum.splits)

lemma caches_settle_children [simp]:
  "termCache (settle_children now gid p net s) = termCache s"
  "childrenCache (settle_children now gid p net s) =
     (case body_or [] net of
        Inr d \<Rightarrow> AList.update gid \<lparr> data = d, timestamp = now \<rparr> (childrenCache s)
      | Inl e \<Rightarrow> childrenCache s)"
  "strainsCache (settle_children now gid p net s) = strainsCache s"
  by (simp_all add: settle_children_def Let_def split: sum.splits)

lemma caches_settle_prefetch [simp]:
  "termCache (settle_prefetch now gid p net s) = termCache s"
  "childrenCache (settle_prefetch now gid p net s) = childrenCache s"
  "strainsCache (settle_prefetch now gid p net s) =
     (case body_or [] net of
        Inr d \<Rightarrow> AList.update gid \<lparr> data = d, timestamp = now \<rparr> (strainsCache s)
      | Inl e \<Rightarrow> strainsCache s)"
  by (simp_all add: settle_prefetch_def Let_def split: sum.splits)

lemma caches_settle_show [simp]:
  "termCache (settle_show now gid p net s) = termCache s"
  "childrenCache (settle_show now gid p net s) = childrenCache s"
  "strainsCache (settle_show now gid p net s) =
     (case body_or [] net of
        Inr d \<Rightarrow> AList.update gid \<lparr> data = d, timestamp = now \<rparr> (strainsCache s)
      | Inl e \<Rightarrow> strainsCache s)"
  by (simp_all add: settle_show_def Let_def split: sum.splits)

lemma term_entry_origin:
  assumes "map_of (termCache (step e s)) k = Some x" and "map_of (termCache s) k \<noteq> Some x"
  shows "\<exists>now p res d. e = TermResponse now p (Inr res) \<and> inflight s p = Some (HTerm k)
           \<and> ok res \<and> json res = Inr d \<and> truthy d \<and> x = \<lparr> data = d, timestamp = now \<rparr>"
proof (cases e)
  case (TermResponse now p net)
  with assms obtain gid where h: "inflight s p = Some (HTerm gid)"
    by (auto split: option.splits handler.splits)
  from assms TermResponse h obtain d where d: "body_or JNull net = Inr d" "truthy d"
    and u: "map_of (AList.update gid \<lparr> data = d, timestamp = now \<rparr> (termCache s)) k = Some x"
    by (auto split: sum.splits if_splits)
  from u assms(2) have k: "k = gid" and x: "x = \<lparr> data = d, timestamp = now \<rparr>"
    by (auto simp: update_conv' split: if_splits)
  from d obtain res where "net = Inr res" "ok res" "json res = Inr d"
    by (auto simp: body_or_cases split: if_splits)
  with TermResponse h k x d show ?thesis by auto
next
  case (SweepTick now)
  with assms show ?thesis
    by (auto dest: sweep_cache_only_deletes)
qed (use assms in \<open>auto split: option.splits handler.splits\<close>)

lemma children_entry_origin:
  assumes "map_of (childrenCache (step e s)) k = Some y"
    and "map_of (childrenCache s) k \<noteq> Some y"
  shows "\<exists>now p res. e = ChildrenResponse now p (Inr res) \<and> inflight s p = Some (HChildren k)
           \<and> (if ok res then json res = Inr (data y) else data y = [])
           \<and> timestamp y = now"
proof (cases e)
  case (ChildrenResponse now p net)
  with assms obtain gid where h: "inflight s p = Some (HChildren gid)"
    by (auto split: option.splits handler.splits)
  from assms ChildrenResponse h obtain d where d: "body_or [] net = Inr d"
    and u: "map_of (AList.update gid \<lparr> data = d, timestamp = now \<rparr> (childrenCache s)) k = Some y"
    by (auto split: sum.splits)
  from u assms(2) have k: "k = gid" and y: "y = \<lparr> data = d, timestamp = now \<rparr>"
    by (auto simp: update_conv' split: if_splits)
  from d obtain res where "net = Inr res" "if ok res then json res = Inr d else d = []"
    by (auto simp: body_or_cases)
  with ChildrenResponse h k y show ?thesis by auto
next
  case (SweepTick now)
  with assms show ?thesis
    by (auto dest: sweep_cache_only_deletes)
qed (use assms in \<open>auto split: option.splits handler.splits\<close>)

lemma strains_entry_origin:
  assumes "map_of (strainsCache (step e s)) k = Some z"
    and "map_of (strainsCache s) k \<noteq> Some z"
  shows "\<exists>now p res. e = StrainsResponse now p (Inr res)
           \<and> (inflight s p = Some (HPrefetch k) \<or> inflight s p = Some (HShow k))
           \<and> (if ok res then json res = Inr (data z) else data z = [])
           \<and> timestamp z = now"
proof (cases e)
  case (StrainsResponse now p net)
  with assms obtain gid where h: "inflight s p = Some (HPrefetch gid) \<or> inflight s p = Some (HShow gid)"
    by (auto split: option.splits handler.splits)
  from assms StrainsResponse h obtain d where d: "body_or [] net = Inr d"
    and u: "map_of (AList.update gid \<lparr> data = d, timestamp = now \<rparr> (strainsCache s)) k = Some z"
    by (auto split: sum.splits)
  from u assms(2) have k: "k = gid" and z: "z = \<lparr> data = d, timestamp = now \<rparr>"
    by (auto simp: update_conv' split: if_splits)
  from d obtain res where "net = Inr res" "if ok res then json res = Inr d else d = []"
    by (auto simp: body_or_cases)
  with StrainsResponse h k z show ?thesis by auto
next
  case (SweepTick now)
  with assms show ?thesis
    by (auto dest: sweep_cache_only_deletes)
qed (use assms in \<open>auto split: option.splits handler.splits\<close>)

text \<open>
  C5 as stated fails: a children request answered with a response that is not ok
  (a 404, say) stores the empty list under the key, with a timestamp.
\<close>

theorem children_404_is_cached:
  "map_of (childrenCache
      (step (ChildrenResponse 7 0 (Inr \<lparr> ok = False, json = Inl SyntaxError \<rparr>))
        (step (CallFetchChildren 0 ''GO:1'') init_state))) ''GO:1''
   = Some \<lparr> data = [], timestamp = 7 \<rparr>"
  by (simp add: fetchChildren_def fresh_def fetch_def init_state_def body_or_def Let_def)

text \<open>
  C5, amended. Over every event and every state: an entry of the term cache appears
  or changes only through a term response that is ok and whose body parses to a truthy
  value, so a response that is not ok (a 404) leaves the term cache as it was and
  fulfils the promise with null; an entry of the children or of the strains cache
  appears or changes only through a response of its own request, carrying the parsed
  body when the response is ok and the empty list when it is not; a response that is
  not ok does store that empty list, with the time of settlement.
\<close>

theorem cache_entry_origin:
  "(map_of (termCache (step e s)) k = Some x \<and> map_of (termCache s) k \<noteq> Some x \<longrightarrow>
      (\<exists>now p res d. e = TermResponse now p (Inr res) \<and> inflight s p = Some (HTerm k)
           \<and> ok res \<and> json res = Inr d \<and> truthy d \<and> x = \<lparr> data = d, timestamp = now \<rparr>))
   \<and> (map_of (childrenCache (step e s)) k = Some y \<and> map_of (childrenCache s) k \<noteq> Some y \<longrightarrow>
      (\<exists>now p res. e = ChildrenResponse now p (Inr res) \<and> inflight s p = Some (HChildren k)
           \<and> (if ok res then json res = Inr (data y) else data y = [])
           \<and> timestamp y = now))
   \<and> (map_of (strainsCache (step e s)) k = Some z \<and> map_of (strainsCache s) k \<noteq> Some z \<longrightarrow>
      (\<exists>now p res. e = StrainsResponse now p (Inr res)
           \<and> (inflight s p = Some (HPrefetch k) \<or> inflight s p = Some (HShow k))
           \<and> (if ok res then json res = Inr (data z) else data z = [])
           \<and> timestamp z = now))
   \<and> (\<not> ok r1 \<longrightarrow>
        termCache (settle_term t gid p (Inr r1) s) = termCache s
        \<and> promises (settle_term t gid p (Inr r1) s) p = Some (Fulfilled (PTerm JNull)))
   \<and> (\<not> ok r2 \<longrightarrow>
        map_of (childrenCache (settle_children t gid p (Inr r2) s)) gid =
          Some \<lparr> data = [], timestamp = t \<rparr>)
   \<and> (\<not> ok r3 \<longrightarrow>
        map_of (strainsCache (settle_show t gid p (Inr r3) s)) gid =
          Some \<lparr> data = [], timestamp = t \<rparr>
        \<and> map_of (strainsCache (settle_prefetch t gid p (Inr r3) s)) gid =
          Some \<lparr> data = [], timestamp = t \<rparr>)"
proof (intro conjI impI)
  assume "\<not> ok r1"
  then show "termCache (settle_term t gid p (Inr r1) s) = termCache s"
    by (simp add: body_or_def)
  from \<open>\<not> ok r1\<close> show "promises (settle_term t gid p (Inr r1) s) p = Some (Fulfilled (PTerm JNull))"
    by (simp add: settle_term_def body_or_def Let_def)
next
  assume "\<not> ok r2"
  then show "map_of (childrenCache (settle_children t gid p (Inr r2) s)) gid =
          Some \<lparr> data = [], timestamp = t \<rparr>"
    by (simp add: body_or_def update_conv')
next
  assume "\<not> ok r3"
  then show "map_of (strainsCache (settle_show t gid p (Inr r3) s)) gid =
          Some \<lparr> data = [], timestamp = t \<rparr>"
    and "map_of (strainsCache (settle_prefetch t gid p (Inr r3) s)) gid =
          Some \<lparr> data = [], timestamp = t \<rparr>"
    by (simp_all add: body_or_def update_conv')
qed (use term_entry_origin children_entry_origin strains_entry_origin in blast)+


lemma term_called_eq:
  "term_called = init_state \<lparr>
      pendingRequests := [''term-GO:1'' \<mapsto> 0],
      sent := [term_url ''GO:1''],
      inflight := [0 \<mapsto> HTerm ''GO:1''] \<rparr>"
  by (simp add: term_called_def fetchTerm_def fresh_def fetch_def init_state_def Let_def)

lemma ddb_called_eq:
  "ddb_called = ddb_init \<lparr> ddb_sent := [term_url ''GO:1''], ddb_suspended := [0 \<mapsto> ''GO:1''] \<rparr>"
  by (simp add: ddb_called_def ddb_fetchTerm_def ddb_init_def Let_def)

theorem cache_entry_origin_witness:
  "map_of (termCache (step (TermResponse 3 0 (Inr \<lparr> ok = True, json = Inr node1 \<rparr>)) term_called))
      ''GO:1'' = Some \<lparr> data = node1, timestamp = 3 \<rparr>
   \<and> map_of (termCache term_called) ''GO:1'' \<noteq> Some \<lparr> data = node1, timestamp = 3 \<rparr>
   \<and> inflight term_called 0 = Some (HTerm ''GO:1'')
   \<and> truthy node1
   \<and> \<not> ok (not_found :: jsval response)
   \<and> termCache (settle_term 3 ''GO:1'' 0 (Inr not_found) term_called) = []
   \<and> promises (settle_term 3 ''GO:1'' 0 (Inr not_found) term_called) 0 = Some (Fulfilled (PTerm JNull))
   \<and> map_of (childrenCache (settle_children 3 ''GO:1'' 0 (Inr not_found) init_state)) ''GO:1'' =
        Some \<lparr> data = [], timestamp = 3 \<rparr>
   \<and> map_of (strainsCache (settle_show 3 ''GO:1'' 0 (Inr not_found) clicked)) ''GO:1'' =
        Some \<lparr> data = [], timestamp = 3 \<rparr>"
proof -
  have a: "map_of (termCache (step (TermResponse 3 0 (Inr \<lparr> ok = True, json = Inr node1 \<rparr>))
      term_called)) ''GO:1'' = Some \<lparr> data = node1, timestamp = 3 \<rparr>"
    by (simp add: term_called_eq init_state_def body_or_def node1_def)
  have b: "map_of (termCache term_called) ''GO:1'' \<noteq> Some \<lparr> data = node1, timestamp = 3 \<rparr>"
    by (simp add: term_called_eq init_state_def)
  have nf1: "\<not> ok (not_found :: jsval response)"
    and nf2: "\<not> ok (not_found :: edge list response)"
    and nf3: "\<not> ok (not_found :: strain list response)"
    by (simp_all add: not_found_def)
  from a b cache_entry_origin [where e = "TermResponse 3 0 (Inr \<lparr> ok = True, json = Inr node1 \<rparr>)"
      and s = term_called and k = "''GO:1''" and x = "\<lparr> data = node1, timestamp = 3 \<rparr>"]
  have c: "inflight term_called 0 = Some (HTerm ''GO:1'') \<and> truthy node1"
    by auto
  have d: "termCache (settle_term 3 ''GO:1'' 0 (Inr not_found) term_called) = termCache term_called
     \<and> promises (settle_term 3 ''GO:1'' 0 (Inr not_found) term_called) 0 =
         Some (Fulfilled (PTerm JNull))"
    using nf1
      cache_entry_origin [where ?r1.0 = not_found and s = term_called and gid = "''GO:1''"
        and t = 3 and p = 0]
    by blast
  have e: "map_of (childrenCache (settle_children 3 ''GO:1'' 0 (Inr not_found) init_state)) ''GO:1'' =
        Some \<lparr> data = [], timestamp = 3 \<rparr>"
    using nf2
      cache_entry_origin [where ?r2.0 = not_found and s = init_state and gid = "''GO:1''"
        and t = 3 and p = 0]
    by blast
  have f: "map_of (strainsCache (settle_show 3 ''GO:1'' 0 (Inr not_found) clicked)) ''GO:1'' =
        Some \<lparr> data = [], timestamp = 3 \<rparr>"
    using nf3
      cache_entry_origin [where ?r3.0 = not_found and s = clicked and gid = "''GO:1''"
        and t = 3 and p = 0]
    by blast
  from d have d': "termCache (settle_term 3 ''GO:1'' 0 (Inr not_found) term_called) = []"
    by (simp add: term_called_eq init_state_def)
  from a b c nf1 d d' e f show ?thesis
    by simp
qed

section \<open>Failures at the fetcher boundary\<close>

text \<open>
  C7 as stated fails for the simple variant: \<^verbatim>\<open>fetchTerm\<close> of \<^verbatim>\<open>src/ddb.js\<close> awaits the
  request without a \<^verbatim>\<open>catch\<close>, so a transport failure is thrown to its caller (the
  promise it returned is rejected), and so is a body that does not parse.
\<close>

theorem ddb_fetchTerm_throws:
  "ddb_promises (ddb_fetchTerm_resume ''GO:1'' 0 (Inl TypeError) ddb_called) 0 =
     Some (Thrown TypeError)
   \<and> ddb_promises (ddb_fetchTerm_resume ''GO:1'' 0
        (Inr \<lparr> ok = True, json = Inl SyntaxError \<rparr>) ddb_called) 0 = Some (Thrown SyntaxError)"
  by (simp add: ddb_fetchTerm_resume_def ddb_called_eq ddb_init_def Let_def)

text \<open>
  C7, amended to the richer variant. However the request settles, the promise of
  \<^verbatim>\<open>fetchTerm\<close> and that of \<^verbatim>\<open>fetchChildren\<close> are fulfilled, never rejected. On a
  transport failure (\<open>net = Inl e\<close>) or a parse failure (an ok response whose
  \<^verbatim>\<open>json()\<close> rejects with \<open>e\<close>), \<^verbatim>\<open>fetchTerm\<close> resolves to null and \<^verbatim>\<open>fetchChildren\<close>
  to the empty list, and the error is written to the console.
\<close>

theorem fetchers_resolve_to_fallback:
  "(\<exists>v. promises (settle_term now gid p net s) p = Some (Fulfilled (PTerm v)))
   \<and> (\<exists>c. promises (settle_children now gid p net' s) p = Some (Fulfilled (PChildren c)))
   \<and> (net = Inl e \<or> (\<exists>res. net = Inr res \<and> ok res \<and> json res = Inl e) \<longrightarrow>
        promises (settle_term now gid p net s) p = Some (Fulfilled (PTerm JNull))
        \<and> console (settle_term now gid p net s) = console s @ [(''Error fetching term:'', e)])
   \<and> (net' = Inl e \<or> (\<exists>res. net' = Inr res \<and> ok res \<and> json res = Inl e) \<longrightarrow>
        promises (settle_children now gid p net' s) p = Some (Fulfilled (PChildren []))
        \<and> console (settle_children now gid p net' s) =
            console s @ [(''Error fetching children:'', e)])"
proof (intro conjI impI)
  show "\<exists>v. promises (settle_term now gid p net s) p = Some (Fulfilled (PTerm v))"
    by (cases "body_or JNull net") (simp_all add: settle_term_def Let_def)
  show "\<exists>c. promises (settle_children now gid p net' s) p = Some (Fulfilled (PChildren c))"
    by (cases "body_or [] net'") (simp_all add: settle_children_def Let_def)
next
  assume "net = Inl e \<or> (\<exists>res. net = Inr res \<and> ok res \<and> json res = Inl e)"
  then have b: "body_or JNull net = Inl e"
    by (simp add: body_or_cases)
  then show "promises (settle_term now gid p net s) p = Some (Fulfilled (PTerm JNull))"
    and "console (settle_term now gid p net s) = console s @ [(''Error fetching term:'', e)]"
    by (simp_all add: settle_term_def Let_def)
next
  assume "net' = Inl e \<or> (\<exists>res. net' = Inr res \<and> ok res \<and> json res = Inl e)"
  then have b: "body_or [] net' = Inl e"
    by (simp add: body_or_cases)
  then show "promises (settle_children now gid p net' s) p = Some (Fulfilled (PChildren []))"
    and "console (settle_children now gid p net' s) =
            console s @ [(''Error fetching children:'', e)]"
    by (simp_all add: settle_children_def Let_def)
qed

theorem fetchers_resolve_to_fallback_witness:
  "promises (settle_term 4 ''GO:1'' 0 (Inl TypeError) term_called) 0 = Some (Fulfilled (PTerm JNull))
   \<and> console (settle_term 4 ''GO:1'' 0 (Inl TypeError) term_called) =
       [(''Error fetching term:'', TypeError)]
   \<and> promises (settle_children 4 ''GO:1'' 0 (Inl TypeError) term_called) 0 =
       Some (Fulfilled (PChildren []))
   \<and> console (settle_children 4 ''GO:1'' 0 (Inl TypeError) term_called) =
       [(''Error fetching children:'', TypeError)]"
  using fetchers_resolve_to_fallback [of 4 "''GO:1''" 0 "Inl TypeError" term_called
      "Inl TypeError" TypeError]
  by (simp add: term_called_eq init_state_def)

section \<open>The two variants of fetchTerm\<close>

text \<open>
  C10 as stated fails: for a response that is ok but whose body does not parse, the
  richer variant resolves to null while the simple variant throws.
\<close>

theorem variants_differ_on_unparsable_body:
  "promises (settle_term 1 ''GO:1'' 0 (Inr \<lparr> ok = True, json = Inl SyntaxError \<rparr>) term_called) 0
     = Some (Fulfilled (PTerm JNull))
   \<and> ddb_promises (ddb_fetchTerm_resume ''GO:1'' 0
        (Inr \<lparr> ok = True, json = Inl SyntaxError \<rparr>) ddb_called) 0 = Some (Thrown SyntaxError)
   \<and> term_called = snd (fetchTerm 0 ''GO:1'' init_state)
   \<and> ddb_called = snd (ddb_fetchTerm ''GO:1'' ddb_init)"
proof -
  have "promises (settle_term 1 ''GO:1'' 0 (Inr \<lparr> ok = True, json = Inl SyntaxError \<rparr>)
      term_called) 0 = Some (Fulfilled (PTerm JNull))"
    by (simp add: settle_term_def body_or_def Let_def)
  moreover have "ddb_promises (ddb_fetchTerm_resume ''GO:1'' 0
        (Inr \<lparr> ok = True, json = Inl SyntaxError \<rparr>) ddb_called) 0 = Some (Thrown SyntaxError)"
    by (simp add: ddb_fetchTerm_resume_def Let_def)
  moreover have "term_called = snd (fetchTerm 0 ''GO:1'' init_state)"
    by (simp add: term_called_def)
  moreover have "ddb_called = snd (ddb_fetchTerm ''GO:1'' ddb_init)"
    by (simp add: ddb_called_def)
  ultimately show ?thesis
    by (intro conjI)
qed

text \<open>
  C10, amended. Take the richer variant in a state that has neither a cache entry nor
  a pending request for the id, and the simple variant in a state that has no cache
  entry for it (the empty caches, in particular). Both calls send one request to the
  same URL. When the request resolves to a response that is not ok, or that is ok with
  a body that parses, both promises are fulfilled with the same value \<open>v\<close>: the parsed
  body when the response is ok, null otherwise; and both variants cache \<open>v\<close> under the
  id exactly when \<open>v\<close> is truthy.
\<close>

theorem fetchTerm_variants_agree:
  "map_of (termCache s) gid = None \<and> pendingRequests s (''term-'' @ gid) = None
   \<and> map_of (ddb_termCache d) gid = None
   \<and> (if ok res then json res = Inr v else v = JNull) \<longrightarrow>
   fst (fetchTerm now gid s) = Awaiting (length (sent s))
   \<and> sent (snd (fetchTerm now gid s)) = sent s @ [term_url gid]
   \<and> fst (ddb_fetchTerm gid d) = Awaiting (length (ddb_sent d))
   \<and> ddb_sent (snd (ddb_fetchTerm gid d)) = ddb_sent d @ [term_url gid]
   \<and> promises (settle_term now' gid (length (sent s)) (Inr res) (snd (fetchTerm now gid s)))
        (length (sent s)) = Some (Fulfilled (PTerm v))
   \<and> ddb_promises (ddb_fetchTerm_resume gid (length (ddb_sent d)) (Inr res)
        (snd (ddb_fetchTerm gid d))) (length (ddb_sent d)) = Some (Returned v)
   \<and> map_of (termCache (settle_term now' gid (length (sent s)) (Inr res)
        (snd (fetchTerm now gid s)))) gid =
       (if truthy v then Some \<lparr> data = v, timestamp = now' \<rparr> else None)
   \<and> map_of (ddb_termCache (ddb_fetchTerm_resume gid (length (ddb_sent d)) (Inr res)
        (snd (ddb_fetchTerm gid d)))) gid =
       (if truthy v then Some v else None)"
proof (intro impI, elim conjE)
  assume miss: "map_of (termCache s) gid = None"
    and nopend: "pendingRequests s (''term-'' @ gid) = None"
    and dmiss: "map_of (ddb_termCache d) gid = None"
    and v: "if ok res then json res = Inr v else v = JNull"
  from miss have nf: "\<not> fresh now (map_of (termCache s) gid)"
    by simp
  have call: "fetchTerm now gid s = (Awaiting (length (sent s)),
          s\<lparr> sent := sent s @ [term_url gid],
             inflight := (inflight s)(length (sent s) \<mapsto> HTerm gid),
             pendingRequests := (pendingRequests s)(''term-'' @ gid \<mapsto> length (sent s)) \<rparr>)"
    using nopend by (simp add: fetchTerm_miss [OF nf])
  have dcall: "ddb_fetchTerm gid d = (Awaiting (length (ddb_sent d)),
          d\<lparr> ddb_sent := ddb_sent d @ [term_url gid],
             ddb_suspended := (ddb_suspended d)(length (ddb_sent d) \<mapsto> gid) \<rparr>)"
    using dmiss by (simp add: ddb_fetchTerm_def Let_def)
  have body: "body_or JNull (Inr res) = Inr v"
    using v by (simp add: body_or_def split: if_splits)
  have body': "(if ok res then json res else Inr JNull) = Inr v"
    using v by (simp split: if_splits)
  show "fst (fetchTerm now gid s) = Awaiting (length (sent s))
   \<and> sent (snd (fetchTerm now gid s)) = sent s @ [term_url gid]
   \<and> fst (ddb_fetchTerm gid d) = Awaiting (length (ddb_sent d))
   \<and> ddb_sent (snd (ddb_fetchTerm gid d)) = ddb_sent d @ [term_url gid]
   \<and> promises (settle_term now' gid (length (sent s)) (Inr res) (snd (fetchTerm now gid s)))
        (length (sent s)) = Some (Fulfilled (PTerm v))
   \<and> ddb_promises (ddb_fetchTerm_resume gid (length (ddb_sent d)) (Inr res)
        (snd (ddb_fetchTerm gid d))) (length (ddb_sent d)) = Some (Returned v)
   \<and> map_of (termCache (settle_term now' gid (length (sent s)) (Inr res)
        (snd (fetchTerm now gid s)))) gid =
       (if truthy v then Some \<lparr> data = v, timestamp = now' \<rparr> else None)
   \<and> map_of (ddb_termCache (ddb_fetchTerm_resume gid (length (ddb_sent d)) (Inr res)
        (snd (ddb_fetchTerm gid d)))) gid =
       (if truthy v then Some v else None)"
    unfolding call dcall
    using miss dmiss
    by (simp add: body settle_term_def Let_def update_conv' ddb_fetchTerm_resume_def body'
        del: caches_settle_term)
qed

theorem fetchTerm_variants_agree_witness:
  "map_of (termCache init_state) ''GO:1'' = None
   \<and> pendingRequests init_state ''term-GO:1'' = None
   \<and> map_of (ddb_termCache ddb_init) ''GO:1'' = None
   \<and> promises (settle_term 9 ''GO:1'' 0 (Inr \<lparr> ok = True, json = Inr node1 \<rparr>)
        (snd (fetchTerm 0 ''GO:1'' init_state))) 0 = Some (Fulfilled (PTerm node1))
   \<and> ddb_promises (ddb_fetchTerm_resume ''GO:1'' 0 (Inr \<lparr> ok = True, json = Inr node1 \<rparr>)
        (snd (ddb_fetchTerm ''GO:1'' ddb_init))) 0 = Some (Returned node1)
   \<and> map_of (termCache (settle_term 9 ''GO:1'' 0 (Inr \<lparr> ok = True, json = Inr node1 \<rparr>)
        (snd (fetchTerm 0 ''GO:1'' init_state)))) ''GO:1'' = Some \<lparr> data = node1, timestamp = 9 \<rparr>
   \<and> map_of (ddb_termCache (ddb_fetchTerm_resume ''GO:1'' 0
        (Inr \<lparr> ok = True, json = Inr node1 \<rparr>) (snd (ddb_fetchTerm ''GO:1'' ddb_init)))) ''GO:1''
       = Some node1
   \<and> promises (settle_term 9 ''GO:1'' 0 (Inr not_found)
        (snd (fetchTerm 0 ''GO:1'' init_state))) 0 = Some (Fulfilled (PTerm JNull))
   \<and> ddb_promises (ddb_fetchTerm_resume ''GO:1'' 0 (Inr not_found)
        (snd (ddb_fetchTerm ''GO:1'' ddb_init))) 0 = Some (Returned JNull)
   \<and> map_of (ddb_termCache (ddb_fetchTerm_resume ''GO:1'' 0 (Inr not_found)
        (snd (ddb_fetchTerm ''GO:1'' ddb_init)))) ''GO:1'' = None"
proof -
  have h: "map_of (termCache init_state) ''GO:1'' = None"
    "pendingRequests init_state ''term-GO:1'' = None"
    "map_of (ddb_termCache ddb_init) ''GO:1'' = None"
    by (simp_all add: init_state_def ddb_init_def)
  have l: "length (sent init_state) = 0" "length (ddb_sent ddb_init) = 0"
    by (simp_all add: init_state_def ddb_init_def)
  have t: "truthy node1" "\<not> truthy JNull"
    by (simp_all add: node1_def)
  note a = fetchTerm_variants_agree [of init_state "''GO:1''" ddb_init
      "\<lparr> ok = True, json = Inr node1 \<rparr>" node1 0 9, unfolded l]
  note b = fetchTerm_variants_agree [of init_state "''GO:1''" ddb_init not_found JNull 0 9,
      unfolded l]
  from h t a b show ?thesis
    by (simp add: not_found_def)
qed

section \<open>Prefetch on hover\<close>

text \<open>A mark whose id has no chain of \<^verbatim>\<open>prefetchStrains\<close> in flight is never removed:
  the only deletions are in that chain, and the hover that would start one is stopped by
  the mark itself.\<close>

lemma mark_stays_step:
  assumes "gid \<in> prefetchQueue s" and "\<forall>p. inflight s p \<noteq> Some (HPrefetch gid)"
  shows "gid \<in> prefetchQueue (step e s) \<and> (\<forall>p. inflight (step e s) p \<noteq> Some (HPrefetch gid))"
proof (cases e)
  case (CallFetchTerm now g)
  with assms show ?thesis
    by (simp add: fetchTerm_def fetch_def Let_def split: option.splits)
next
  case (CallFetchChildren now g)
  with assms show ?thesis
    by (simp add: fetchChildren_def fetch_def Let_def split: option.splits)
next
  case (Hover t)
  with assms show ?thesis
    by (auto simp: mouseenter_def prefetchStrains_def fetch_def Let_def)
next
  case (ClickTerm now t)
  with assms show ?thesis
    by (simp add: showStrains_def fetch_def Let_def split: option.splits)
next
  case ClickLoadMore
  with assms show ?thesis
    by (simp add: click_loadMore_def split: option.splits li.splits)
next
  case (SweepTick now)
  with assms show ?thesis
    by (simp add: sweep_def Let_def)
next
  case (TermResponse now q net)
  with assms show ?thesis
    by (simp add: settle_term_def Let_def split: option.splits handler.splits sum.splits)
next
  case (ChildrenResponse now q net)
  with assms show ?thesis
    by (simp add: settle_children_def Let_def split: option.splits handler.splits sum.splits)
next
  case (StrainsResponse now q net)
  with assms show ?thesis
    by (auto simp: settle_prefetch_def settle_show_def Let_def
        split: option.splits handler.splits sum.splits)
qed

lemma mark_stays_run:
  assumes "gid \<in> prefetchQueue s" and "\<forall>p. inflight s p \<noteq> Some (HPrefetch gid)"
  shows "gid \<in> prefetchQueue (fold step evs s)"
  using assms
proof (induction evs arbitrary: s)
  case Nil
  then show ?case by simp
next
  case (Cons e evs)
  from mark_stays_step [OF Cons.prems, of e] Cons.IH [of "step e s"] show ?case
    by simp
qed

lemma hovered_eq:
  "step (Hover term1) clicked = clicked \<lparr> prefetchQueue := {''GO:1''} \<rparr>"
  by (simp add: clicked_eq init_state_def mouseenter_def prefetchStrains_def term1_def)

text \<open>
  C4, at the inputs where the code departs from the claim. First, a request of
  \<^verbatim>\<open>showStrains\<close> for \<^verbatim>\<open>GO:1\<close> is pending (\<open>clicked\<close>): the strains are not cached and
  the node is not marked. A hover marks the node; \<^verbatim>\<open>prefetchStrains\<close> returns early and
  sends nothing, and the mark is never removed: it is there after every sequence of
  events, settlements of the pending request included, and every later hover of the
  node does nothing. Second, with an expired strains entry still in the cache
  (\<open>warm_state\<close>, read after the TTL) and no mark, a hover neither marks the node nor
  sends a request.
\<close>

theorem hover_mark_never_removed:
  "map_of (strainsCache clicked) (go_id term1) = None
   \<and> go_id term1 \<notin> prefetchQueue clicked
   \<and> go_id term1 \<in> prefetchQueue (step (Hover term1) clicked)
   \<and> sent (step (Hover term1) clicked) = sent clicked
   \<and> (\<forall>evs. go_id term1 \<in> prefetchQueue (fold step evs (step (Hover term1) clicked)))
   \<and> (\<forall>evs. step (Hover term1) (fold step evs (step (Hover term1) clicked)) =
              fold step evs (step (Hover term1) clicked))
   \<and> go_id term1 \<in> prefetchQueue
        (step (StrainsResponse 8 0 (Inr \<lparr> ok = True, json = Inr strains50 \<rparr>))
          (step (Hover term1) clicked))
   \<and> \<not> fresh (CACHE_EXPIRY + 1) (map_of (strainsCache warm_state) (go_id term1))
   \<and> go_id term1 \<notin> prefetchQueue warm_state
   \<and> step (Hover term1) warm_state = warm_state"
proof -
  have g: "go_id term1 = ''GO:1''"
    by (simp add: term1_def)
  have m: "''GO:1'' \<in> prefetchQueue (step (Hover term1) clicked)"
    and i: "\<forall>p. inflight (step (Hover term1) clicked) p \<noteq> Some (HPrefetch ''GO:1'')"
    unfolding hovered_eq by (simp_all add: clicked_eq init_state_def)
  have stays: "''GO:1'' \<in> prefetchQueue (fold step evs (step (Hover term1) clicked))" for evs
    using m i by (rule mark_stays_run)
  have noop: "step (Hover term1) (fold step evs (step (Hover term1) clicked)) =
              fold step evs (step (Hover term1) clicked)" for evs
    using stays [of evs] by (simp add: mouseenter_def g)
  have a: "map_of (strainsCache clicked) ''GO:1'' = None" "''GO:1'' \<notin> prefetchQueue clicked"
    "sent (step (Hover term1) clicked) = sent clicked"
    unfolding hovered_eq by (simp_all add: clicked_eq init_state_def)
  have b: "''GO:1'' \<in> prefetchQueue
        (step (StrainsResponse 8 0 (Inr \<lparr> ok = True, json = Inr strains50 \<rparr>))
          (step (Hover term1) clicked))"
    using stays [of "[StrainsResponse 8 0 (Inr \<lparr> ok = True, json = Inr strains50 \<rparr>)]"]
    by simp
  have c: "\<not> fresh (CACHE_EXPIRY + 1) (map_of (strainsCache warm_state) ''GO:1'')"
    "''GO:1'' \<notin> prefetchQueue warm_state"
    "step (Hover term1) warm_state = warm_state"
    by (simp_all add: warm_state_eq init_state_def mouseenter_def term1_def CACHE_EXPIRY_def)
  from a m stays noop b c show ?thesis
    unfolding g by blast
qed

text \<open>
  What the listener does when nothing is in its way: with no entry in the strains
  cache, no mark and no strains request pending for the id, the id is marked and a
  request to the strains URL is sent and registered under the strains key, with the
  chain of \<^verbatim>\<open>prefetchStrains\<close>. That chain removes its id from the prefetch set when the
  request settles, whatever the outcome.
\<close>

lemma hover_prefetch_issued:
  assumes "map_of (strainsCache s) (go_id t) = None" and "go_id t \<notin> prefetchQueue s"
    and "pendingRequests s (''strains-'' @ go_id t) = None"
  shows "go_id t \<in> prefetchQueue (mouseenter t s)"
    and "sent (mouseenter t s) = sent s @ [strains_url (go_id t)]"
    and "inflight (mouseenter t s) (length (sent s)) = Some (HPrefetch (go_id t))"
    and "pendingRequests (mouseenter t s) (''strains-'' @ go_id t) = Some (length (sent s))"
  using assms by (simp_all add: mouseenter_def prefetchStrains_def fetch_def Let_def)

lemma prefetch_settlement_unmarks:
  "prefetchQueue (settle_prefetch now goId p net s) = prefetchQueue s - {goId}"
  by (cases "body_or [] net") (simp_all add: settle_prefetch_def Let_def)


section \<open>Deduplication of concurrent calls\<close>






lemma settle_chain_frame [simp]:
  "inflight (settle_term now gid p net s) = (inflight s)(p := None)"
  "inflight (settle_children now gid p net' s) = (inflight s)(p := None)"
  "inflight (settle_prefetch now gid p net'' s) = (inflight s)(p := None)"
  "inflight (settle_show now gid p net'' s) = (inflight s)(p := None)"
  "sent (settle_term now gid p net s) = sent s"
  "sent (settle_children now gid p net' s) = sent s"
  "sent (settle_prefetch now gid p net'' s) = sent s"
  "sent (settle_show now gid p net'' s) = sent s"
  by (simp_all add: settle_term_def settle_children_def settle_prefetch_def settle_show_def
      Let_def split: sum.splits)






















subsection \<open>Delivery of the result\<close>

lemma promises_frame [simp]:
  "promises (snd (fetchTerm now gid s)) = promises s"
  "promises (snd (fetchChildren now gid s)) = promises s"
  "promises (mouseenter t s) = promises s"
  "promises (showStrains now t s) = promises s"
  "promises (click_loadMore s) = promises s"
  "promises (sweep now s) = promises s"
  by (simp_all add: fetchTerm_def fetchChildren_def mouseenter_def prefetchStrains_def
      showStrains_def click_loadMore_def sweep_def fetch_def Let_def
      split: option.splits li.splits)






















section \<open>The caches of reachable states\<close>

lemma distinct_sweep_cache:
  "distinct (map fst cache) \<Longrightarrow> distinct (map fst (sweep_cache now cache))"
proof -
  have "distinct (map fst c) \<Longrightarrow> distinct (map fst (fold (\<lambda>(key, value) c.
             if now - timestamp value > CACHE_EXPIRY then AList.delete key c else c) xs c))"
    for xs c :: "(string \<times> 'a entry) list"
    by (induction xs arbitrary: c) (simp_all add: distinct_delete split_def)
  then show "distinct (map fst cache) \<Longrightarrow> distinct (map fst (sweep_cache now cache))"
    by (simp add: sweep_cache_def)
qed

lemma caches_distinct_step:
  assumes "distinct (map fst (termCache s)) \<and> distinct (map fst (childrenCache s))
           \<and> distinct (map fst (strainsCache s))"
  shows "distinct (map fst (termCache (step e s))) \<and> distinct (map fst (childrenCache (step e s)))
           \<and> distinct (map fst (strainsCache (step e s)))"
  using assms
  by (cases e)
     (auto simp: distinct_update distinct_sweep_cache split: option.splits handler.splits sum.splits)

lemma reachable_caches_distinct:
  "reachable s \<Longrightarrow>
     distinct (map fst (termCache s)) \<and> distinct (map fst (childrenCache s))
     \<and> distinct (map fst (strainsCache s))"
proof (induction rule: reachable.induct)
  case reachable_init
  show ?case by (simp add: init_state_def)
next
  case (reachable_step s e)
  from reachable_step.IH show ?case by (rule caches_distinct_step)
qed

text \<open>In a reachable state the sweep removes exactly the entries older than the TTL.\<close>

lemma sweep_reachable:
  assumes "reachable s"
  shows "map_of (termCache (sweep now s)) k =
     (case map_of (termCache s) k of
        None \<Rightarrow> None
      | Some e \<Rightarrow> if now - timestamp e > CACHE_EXPIRY then None else Some e)"
    and "map_of (childrenCache (sweep now s)) k =
     (case map_of (childrenCache s) k of
        None \<Rightarrow> None
      | Some e \<Rightarrow> if now - timestamp e > CACHE_EXPIRY then None else Some e)"
    and "map_of (strainsCache (sweep now s)) k =
     (case map_of (strainsCache s) k of
        None \<Rightarrow> None
      | Some e \<Rightarrow> if now - timestamp e > CACHE_EXPIRY then None else Some e)"
  using reachable_caches_distinct [OF assms]
  by (simp_all add: sweep_cache_lookup)

end
